theory Spec2Isabelle
  imports Complex_Main "HOL-Library.Word" "HOL-Library.Log_Nat" "HOL-Library.Code_Target_Numeral"
begin

section \<open>Data model (types.ts, browser objects)\<close>

text \<open>
  A JavaScript string is a sequence of 16-bit code units, and \<open>length\<close> is the
  source's \<open>.length\<close>. The string literals of the source are plain ASCII; \<open>str\<close> turns
  such a literal into its code units.
\<close>

type_synonym jsstring = "16 word list"

definition str :: "string \<Rightarrow> jsstring" where
  "str s = map (\<lambda>c. of_nat (of_char c)) s"

datatype AppLanguage =
  ENGLISH | HINDI | SPANISH | FRENCH | GERMAN | CHINESE | JAPANESE | ARABIC | PORTUGUESE | RUSSIAN

record LearningContent =
  topic :: jsstring
  short_reading :: jsstring
  simple_explanation :: jsstring
  key_points :: "jsstring list"
  example :: jsstring
  quiz :: jsstring

datatype role = user | assistant

record ChatMessage =
  msg_role :: role
  msg_text :: jsstring

text \<open>
  A JavaScript number, as far as the program needs it: \<open>Fin q\<close> is the finite number of
  value \<open>q\<close>. The decimal literals of the source and of the volume slider (0.9, 0.1, ...)
  are written as the fractions they spell. Where the program computes with numbers, in the
  progress percentage, each operation rounds its result to a double, as defined below.
\<close>

datatype jsnum = NaN | Fin rat | PosInf | NegInf

subsection \<open>Rounding to a double\<close>

text \<open>
  The exponent of a positive rational: the \<open>k\<close> with \<open>2^k \<le> x < 2^(k+1)\<close>.
\<close>

definition ilog2 :: "rat \<Rightarrow> int" where
  "ilog2 x = (if 1 \<le> x then int (floorlog 2 (nat \<lfloor>x\<rfloor>)) - 1
              else - int (floorlog 2 (nat \<lceil>1 / x\<rceil> - 1)))"

text \<open>Rounding to the nearest integer, a tie going to the even one.\<close>

definition round_even :: "rat \<Rightarrow> int" where
  "round_even r =
     (let f = \<lfloor>r\<rfloor>; d = r - of_int f in
      if d < 1 / 2 then f else if 1 / 2 < d then f + 1 else if even f then f else f + 1)"

text \<open>
  The double nearest to a non-negative rational, before overflow is looked at: 53
  significant bits at the exponent of \<open>x\<close>, and the fixed spacing \<open>2^-1074\<close> of the
  subnormal range below \<open>2^-1022\<close>.
\<close>

definition nearest_double :: "rat \<Rightarrow> rat" where
  "nearest_double x =
     (let u = 2 powi (max (ilog2 x) (- 1022) - 52) in of_int (round_even (x / u)) * u)"

text \<open>The exponent that fixes the spacing of the doubles around \<open>x\<close>.\<close>

definition binade :: "rat \<Rightarrow> int" where
  "binade x = max (ilog2 x) (- 1022)"

text \<open>
  The result of an arithmetic operation whose exact value is \<open>x\<close>: the nearest double,
  or an infinity when that needs an exponent above 1023.
\<close>

definition to_double :: "rat \<Rightarrow> jsnum" where
  "to_double x =
     (if x = 0 then Fin 0
      else if 0 < x then
        (if 1024 \<le> ilog2 (nearest_double x) then PosInf else Fin (nearest_double x))
      else
        (if 1024 \<le> ilog2 (nearest_double (- x)) then NegInf else Fin (- nearest_double (- x))))"

text \<open>
  \<open>a / b\<close> for two non-negative integers (a \<open>charIndex\<close>, a length: both doubles
  exactly), and \<open>x * k\<close>.
\<close>

definition js_div :: "nat \<Rightarrow> nat \<Rightarrow> jsnum" where
  "js_div a b =
     (if b = 0 then (if a = 0 then NaN else PosInf) else to_double (of_nat a / of_nat b))"

fun js_mul :: "jsnum \<Rightarrow> rat \<Rightarrow> jsnum" where
  "js_mul NaN k = NaN"
| "js_mul (Fin a) k = to_double (a * k)"
| "js_mul PosInf k = (if k = 0 then NaN else if 0 < k then PosInf else NegInf)"
| "js_mul NegInf k = (if k = 0 then NaN else if 0 < k then NegInf else PosInf)"

text \<open>\<open>Math.min(x, y)\<close>: \<open>NaN\<close> if an argument is \<open>NaN\<close>.\<close>

fun Math_min :: "jsnum \<Rightarrow> jsnum \<Rightarrow> jsnum" where
  "Math_min NaN y = NaN"
| "Math_min x NaN = NaN"
| "Math_min NegInf y = NegInf"
| "Math_min x NegInf = NegInf"
| "Math_min PosInf y = y"
| "Math_min x PosInf = x"
| "Math_min (Fin a) (Fin b) = Fin (min a b)"

text \<open>The comparison \<open>\<le>\<close> of JavaScript numbers: false whenever \<open>NaN\<close> takes part.\<close>

fun js_le :: "jsnum \<Rightarrow> jsnum \<Rightarrow> bool" where
  "js_le NaN y = False"
| "js_le x NaN = False"
| "js_le NegInf y = True"
| "js_le x PosInf = True"
| "js_le PosInf y = False"
| "js_le x NegInf = False"
| "js_le (Fin a) (Fin b) = (a \<le> b)"

text \<open>At or above zero: a finite value that is not negative, or infinity.\<close>

fun nonneg :: "jsnum \<Rightarrow> bool" where
  "nonneg (Fin q) = (0 \<le> q)"
| "nonneg PosInf = True"
| "nonneg x = False"

subsection \<open>Browser objects and the component's state\<close>

text \<open>A \<open>SpeechSynthesisUtterance\<close> object: the attributes \<open>speakContent\<close> sets.\<close>

record utterance =
  u_text :: jsstring
  u_lang :: jsstring
  u_rate :: rat
  u_volume :: jsnum

text \<open>The calls the program makes on \<open>window.speechSynthesis\<close>.\<close>

datatype synth_call = Cancel | Pause | Resume | Speak nat

text \<open>A \<open>File\<close> of the file input: MIME type and size in bytes.\<close>

record input_file =
  f_type :: jsstring
  f_size :: nat

text \<open>
  The state of the \<open>App\<close> component: its \<open>useState\<close> cells, the utterance
  reference, the utterance objects created so far (a store indexed by address, since the
  reference and the speech queue share the object), and the log of calls made on the
  speech synthesiser and on the two services.
\<close>

record state =
  image :: "jsstring option"
  loading :: bool
  error :: "jsstring option"
  content :: "LearningContent option"
  language :: AppLanguage
  isSpeaking :: bool
  speechProgress :: jsnum
  isPaused :: bool
  speechVolume :: jsnum
  chatInput :: jsstring
  chatLoading :: bool
  messages :: "ChatMessage list"
  isListening :: bool
  currentUtteranceRef :: "nat option"
  utterances :: "utterance list"
  synthCalls :: "synth_call list"
  analyzerCalls :: "(jsstring \<times> AppLanguage) list"
  responderCalls :: "(jsstring \<times> ChatMessage list \<times> AppLanguage) list"

text \<open>The state of the first render (the initial values of the \<open>useState\<close> cells).\<close>

definition initial_state :: state where
  "initial_state = \<lparr> image = None, loading = False, error = None, content = None,
     language = ENGLISH, isSpeaking = False, speechProgress = Fin 0, isPaused = False,
     speechVolume = Fin 1, chatInput = [], chatLoading = False, messages = [],
     isListening = False, currentUtteranceRef = None, utterances = [], synthCalls = [],
     analyzerCalls = [], responderCalls = [] \<rparr>"

fun LANGUAGE_CONFIG :: "AppLanguage \<Rightarrow> jsstring \<times> jsstring" where
  "LANGUAGE_CONFIG ENGLISH = (str ''en-US'', str ''en-US'')"
| "LANGUAGE_CONFIG HINDI = (str ''hi-IN'', str ''hi-IN'')"
| "LANGUAGE_CONFIG SPANISH = (str ''es-ES'', str ''es-ES'')"
| "LANGUAGE_CONFIG FRENCH = (str ''fr-FR'', str ''fr-FR'')"
| "LANGUAGE_CONFIG GERMAN = (str ''de-DE'', str ''de-DE'')"
| "LANGUAGE_CONFIG CHINESE = (str ''zh-CN'', str ''zh-CN'')"
| "LANGUAGE_CONFIG JAPANESE = (str ''ja-JP'', str ''ja-JP'')"
| "LANGUAGE_CONFIG ARABIC = (str ''ar-SA'', str ''ar-SA'')"
| "LANGUAGE_CONFIG PORTUGUESE = (str ''pt-BR'', str ''pt-BR'')"
| "LANGUAGE_CONFIG RUSSIAN = (str ''ru-RU'', str ''ru-RU'')"

definition voiceCode :: "AppLanguage \<Rightarrow> jsstring" where
  "voiceCode l = snd (LANGUAGE_CONFIG l)"

section \<open>String helpers of the JavaScript library\<close>

definition startsWith :: "jsstring \<Rightarrow> jsstring \<Rightarrow> bool" where
  "startsWith s p = (take (length p) s = p)"

text \<open>
  The code units that \<open>trim\<close> strips: the white space and line terminators of
  ECMAScript (tab, line feed, vertical tab, form feed, carriage return, space, no-break
  space, U+1680, U+2000 to U+200A, U+2028, U+2029, U+202F, U+205F, U+3000, U+FEFF).
\<close>

definition js_whitespace :: "16 word \<Rightarrow> bool" where
  "js_whitespace c =
     (c \<in> {0x09, 0x0A, 0x0B, 0x0C, 0x0D, 0x20, 0xA0, 0x1680, 0x2028, 0x2029, 0x202F, 0x205F,
            0x3000, 0xFEFF} \<or> (0x2000 \<le> c \<and> c \<le> 0x200A))"

definition trim :: "jsstring \<Rightarrow> jsstring" where
  "trim s = rev (dropWhile js_whitespace (rev (dropWhile js_whitespace s)))"

fun join :: "jsstring list \<Rightarrow> jsstring \<Rightarrow> jsstring" where
  "join [] sep = []"
| "join [x] sep = x"
| "join (x # y # ys) sep = x @ sep @ join (y # ys) sep"

text \<open>\<open>s.split(',')\<close>: the pieces of \<open>s\<close> between commas (always at least one).\<close>

fun split_comma :: "jsstring \<Rightarrow> jsstring list" where
  "split_comma [] = [[]]"
| "split_comma (c # cs) =
     (if c = 0x2C then [] # split_comma cs
      else (case split_comma cs of p # ps \<Rightarrow> (c # p) # ps | [] \<Rightarrow> [[c]]))"

text \<open>Indexing an array: \<open>undefined\<close> out of range.\<close>

definition at_index :: "'a list \<Rightarrow> nat \<Rightarrow> 'a option" where
  "at_index xs i = (if i < length xs then Some (xs ! i) else None)"

text \<open>A value of type \<open>string | null | undefined\<close> is falsy when absent or empty.\<close>

fun falsy :: "jsstring option \<Rightarrow> bool" where
  "falsy None = True"
| "falsy (Some s) = (s = [])"

definition nl :: jsstring where
  "nl = [0x0A]"

section \<open>services/geminiService.ts\<close>

datatype exn = SdkError | NoResponse | ParseError | ReadError

text \<open>
  The outcome of the SDK (constructing the client and awaiting \<open>generateContent\<close>):
  it throws, or it returns a response whose \<open>text\<close> may be undefined.
\<close>

datatype sdk_result = SdkThrows | SdkResponse "jsstring option"

text \<open>
  \<open>analyzeImageContent\<close>: the \<open>catch\<close> block logs and rethrows, so every error of the
  \<open>try\<close> block reaches the caller. \<open>parse\<close> stands for \<open>JSON.parse\<close> followed by the
  cast to \<open>LearningContent\<close> (\<open>None\<close> when it throws; the response schema requires
  every field, so a parsed value is taken to have them); \<open>gen\<close> is the SDK call on the
  image and the language of the prompt.
\<close>

definition analyzeImageContent ::
  "(jsstring \<Rightarrow> AppLanguage \<Rightarrow> sdk_result) \<Rightarrow> (jsstring \<Rightarrow> LearningContent option) \<Rightarrow>
   jsstring \<Rightarrow> AppLanguage \<Rightarrow> exn + LearningContent" where
  "analyzeImageContent gen parse base64Image lang =
     (case gen base64Image lang of
        SdkThrows \<Rightarrow> Inl SdkError
      | SdkResponse t \<Rightarrow>
          (if falsy t then Inl NoResponse
           else (case parse (the t) of None \<Rightarrow> Inl ParseError | Some c \<Rightarrow> Inr c)))"

text \<open>The chat history in the SDK's format: role \<open>user\<close> or \<open>model\<close>, and the text.\<close>

definition to_contents :: "ChatMessage list \<Rightarrow> (jsstring \<times> jsstring) list" where
  "to_contents chatHistory =
     map (\<lambda>msg. (if msg_role msg = user then str ''user'' else str ''model'', msg_text msg)) chatHistory"

definition no_answer_fallback :: jsstring where
  "no_answer_fallback = str ''I couldn't generate an answer at the moment.''"

definition connection_fallback :: jsstring where
  "connection_fallback = str ''Sorry, I am having trouble connecting to the brain right now.''"

text \<open>
  The \<open>try\<close> block of \<open>askFollowUpQuestion\<close>: \<open>Inl\<close> when the SDK throws, otherwise
  \<open>response.text || "I couldn't generate ..."\<close>. \<open>gen\<close> is the SDK call on the system
  instruction's two variable parts and the converted history.
\<close>

definition askFollowUpQuestion_try ::
  "(jsstring \<Rightarrow> AppLanguage \<Rightarrow> (jsstring \<times> jsstring) list \<Rightarrow> sdk_result) \<Rightarrow>
   jsstring \<Rightarrow> ChatMessage list \<Rightarrow> AppLanguage \<Rightarrow> exn + jsstring" where
  "askFollowUpQuestion_try gen historyContext chatHistory lang =
     (case gen historyContext lang (to_contents chatHistory) of
        SdkThrows \<Rightarrow> Inl SdkError
      | SdkResponse t \<Rightarrow> Inr (if falsy t then no_answer_fallback else the t))"

text \<open>The whole function: the \<open>catch\<close> block turns every error into a returned string.\<close>

definition askFollowUpQuestion ::
  "(jsstring \<Rightarrow> AppLanguage \<Rightarrow> (jsstring \<times> jsstring) list \<Rightarrow> sdk_result) \<Rightarrow>
   jsstring \<Rightarrow> ChatMessage list \<Rightarrow> AppLanguage \<Rightarrow> exn + jsstring" where
  "askFollowUpQuestion gen historyContext chatHistory lang =
     (case askFollowUpQuestion_try gen historyContext chatHistory lang of
        Inl e \<Rightarrow> Inr connection_fallback
      | Inr answer \<Rightarrow> Inr answer)"

section \<open>App.tsx: handlers\<close>

text \<open>
  Each render of \<open>App\<close> creates its handlers anew, closed over that render's values of
  the state cells. A handler therefore takes two states: \<open>r\<close>, the state of the render
  that created it (what the closure reads), and \<open>s\<close>, the state when it runs (what the
  setters update; the updater of \<open>setMessages(prev => ...)\<close> reads \<open>s\<close>). The two differ
  whenever the state has been updated since the render that the handler comes from was
  committed. A setter's update is applied in program order. An \<open>async\<close> handler is split
  at its \<open>await\<close> into the part that runs up to it and the part that runs when the
  awaited promise settles.
\<close>

definition unsupported_format_msg :: jsstring where
  "unsupported_format_msg = str ''Unsupported file format. Please upload a valid image (JPEG, PNG).''"

definition too_large_msg :: jsstring where
  "too_large_msg = str ''Image is too large. Please use an image under 10MB.''"

definition read_failure_msg :: jsstring where
  "read_failure_msg = str ''Failed to process image file.''"

definition analysis_failure_msg :: jsstring where
  "analysis_failure_msg =
     str ''Unable to analyze the image. Please ensure the image is clear and try again.''"

text \<open>
  \<open>fileToBase64\<close>: the reader fails (\<open>None\<close>), or loads a data URL of which the part
  after the first comma is kept (\<open>undefined\<close> when there is no comma).
\<close>

definition fileToBase64 :: "jsstring option \<Rightarrow> exn + jsstring option" where
  "fileToBase64 reader_result =
     (case reader_result of
        None \<Rightarrow> Inl ReadError
      | Some result \<Rightarrow> Inr (at_index (split_comma result) 1))"

text \<open>
  \<open>handleFileChange\<close> up to its \<open>await\<close>: the state, and the file handed to
  \<open>fileToBase64\<close> when validation passes. The argument is \<open>e.target.files[0]\<close>, if any.
\<close>

definition handleFileChange :: "input_file option \<Rightarrow> state \<Rightarrow> state \<times> input_file option" where
  "handleFileChange files s =
     (let s0 = s\<lparr>error := None\<rparr> in
      case files of
        None \<Rightarrow> (s0, None)
      | Some f \<Rightarrow>
          if \<not> startsWith (f_type f) (str ''image/'') then
            (s0\<lparr>error := Some unsupported_format_msg\<rparr>, None)
          else if f_size f > 10 * 1024 * 1024 then
            (s0\<lparr>error := Some too_large_msg\<rparr>, None)
          else (s0, Some f))"

text \<open>\<open>handleFileChange\<close> after the \<open>await\<close>: the \<open>try\<close> and \<open>catch\<close> branches.\<close>

definition handleFileChange_settled :: "exn + jsstring option \<Rightarrow> state \<Rightarrow> state" where
  "handleFileChange_settled res s =
     (case res of
        Inr base64 \<Rightarrow> s\<lparr>image := base64, content := None\<rparr>
      | Inl err \<Rightarrow> s\<lparr>error := Some read_failure_msg\<rparr>)"

definition stopSpeaking :: "state \<Rightarrow> state" where
  "stopSpeaking s =
     s\<lparr>synthCalls := synthCalls s @ [Cancel], isSpeaking := False, isPaused := False,
       speechProgress := Fin 0, currentUtteranceRef := None\<rparr>"

definition togglePause :: "state \<Rightarrow> state \<Rightarrow> state" where
  "togglePause r s =
     (if isPaused r then s\<lparr>synthCalls := synthCalls s @ [Resume], isPaused := False\<rparr>
      else s\<lparr>synthCalls := synthCalls s @ [Pause], isPaused := True\<rparr>)"

text \<open>
  \<open>speakContent\<close> after its call of \<open>stopSpeaking\<close>: the new utterance object is
  allocated at the next free address, referenced, configured and handed to \<open>speak\<close>.
\<close>

definition new_utterance :: "state \<Rightarrow> jsstring \<Rightarrow> jsstring option \<Rightarrow> utterance" where
  "new_utterance r txt forceLang =
     \<lparr>u_text = txt,
      u_lang = (if falsy forceLang then voiceCode (language r) else the forceLang),
      u_rate = 9 / 10,
      u_volume = speechVolume r\<rparr>"

definition speakContent_begin :: "state \<Rightarrow> jsstring \<Rightarrow> jsstring option \<Rightarrow> state \<Rightarrow> state" where
  "speakContent_begin r txt forceLang s =
     (let uid = length (utterances s) in
      s\<lparr>utterances := utterances s @ [new_utterance r txt forceLang],
        currentUtteranceRef := Some uid,
        isSpeaking := True,
        synthCalls := synthCalls s @ [Speak uid]\<rparr>)"

definition speakContent :: "state \<Rightarrow> jsstring \<Rightarrow> jsstring option \<Rightarrow> state \<Rightarrow> state" where
  "speakContent r txt forceLang s = speakContent_begin r txt forceLang (stopSpeaking s)"

text \<open>
  The event handlers \<open>speakContent\<close> installs on the utterance; \<open>totalLength\<close> is the
  length of the utterance's text. A boundary event carries its name and \<open>charIndex\<close>.
\<close>

definition progress_percent :: "nat \<Rightarrow> nat \<Rightarrow> jsnum" where
  "progress_percent charIndex totalLength =
     Math_min (js_mul (js_div charIndex totalLength) 100) (Fin 100)"

definition onboundary :: "nat \<Rightarrow> jsstring \<times> nat \<Rightarrow> state \<Rightarrow> state" where
  "onboundary totalLength event s =
     (if fst event = str ''word''
      then s\<lparr>speechProgress := progress_percent (snd event) totalLength\<rparr>
      else s)"

definition onend :: "state \<Rightarrow> state" where
  "onend s = s\<lparr>isSpeaking := False, speechProgress := Fin 100, isPaused := False\<rparr>"

definition onerror :: "state \<Rightarrow> state" where
  "onerror s = s\<lparr>isSpeaking := False, isPaused := False\<rparr>"

definition textToRead :: "LearningContent \<Rightarrow> jsstring" where
  "textToRead c =
     nl @ str ''      Topic: '' @ topic c @ str ''. '' @
     nl @ str ''      Simple Explanation: '' @ simple_explanation c @ str ''. '' @
     nl @ str ''      Key Points: '' @ join (key_points c) (str ''. '') @ str ''. '' @
     nl @ str ''      Example: '' @ example c @ str ''.'' @
     nl @ str ''    ''"

definition handleReadAloud :: "state \<Rightarrow> state \<Rightarrow> state" where
  "handleReadAloud r s =
     (case content r of
        None \<Rightarrow> s
      | Some c \<Rightarrow> speakContent r (textToRead c) None s)"

text \<open>
  The volume: \<open>setVolume\<close> is \<open>setSpeechVolume\<close>, and the effect that depends on
  \<open>speechVolume\<close> runs after a render in which the value changed, writing it into the
  referenced utterance object. (A reference always holds the address of an object that
  exists; for any other address the store is left as it is.)
\<close>

definition volume_effect :: "state \<Rightarrow> state" where
  "volume_effect s =
     (case currentUtteranceRef s of
        None \<Rightarrow> s
      | Some uid \<Rightarrow>
          if uid < length (utterances s)
          then s\<lparr>utterances := (utterances s)[uid := (utterances s ! uid)\<lparr>u_volume := speechVolume s\<rparr>]\<rparr>
          else s)"

definition setVolume :: "jsnum \<Rightarrow> state \<Rightarrow> state" where
  "setVolume v s =
     (if v = speechVolume s then s else volume_effect (s\<lparr>speechVolume := v\<rparr>))"

text \<open>\<open>handleAnalyze\<close> up to its \<open>await\<close>, and its \<open>try\<close>/\<open>catch\<close>/\<open>finally\<close> after it.\<close>

definition handleAnalyze :: "state \<Rightarrow> state \<Rightarrow> state" where
  "handleAnalyze r s =
     (if falsy (image r) then s
      else
        (let s1 = stopSpeaking (s\<lparr>loading := True, error := None\<rparr>) in
         s1\<lparr>analyzerCalls := analyzerCalls s1 @ [(the (image r), language r)]\<rparr>))"

definition handleAnalyze_settled :: "exn + LearningContent \<Rightarrow> state \<Rightarrow> state" where
  "handleAnalyze_settled res s =
     (case res of
        Inr result \<Rightarrow> s\<lparr>content := Some result, messages := []\<rparr>
      | Inl err \<Rightarrow> s\<lparr>error := Some analysis_failure_msg\<rparr>)
     \<lparr>loading := False\<rparr>"

text \<open>\<open>handleSendMessage\<close>.\<close>

definition message_text :: "state \<Rightarrow> jsstring option \<Rightarrow> jsstring" where
  "message_text r textOverride = (if falsy textOverride then chatInput r else the textOverride)"

definition build_context :: "LearningContent \<Rightarrow> jsstring" where
  "build_context c =
     nl @ str ''      Topic: '' @ topic c @
     nl @ str ''      Extracted Text: '' @ short_reading c @
     nl @ str ''      Explanation: '' @ simple_explanation c @
     nl @ str ''      Key Points: '' @ join (key_points c) nl @
     nl @ str ''      Example: '' @ example c @
     nl @ str ''    ''"

definition userMsg :: "jsstring \<Rightarrow> ChatMessage" where
  "userMsg txt = \<lparr>msg_role = user, msg_text = txt\<rparr>"

definition aiMsg :: "jsstring \<Rightarrow> ChatMessage" where
  "aiMsg txt = \<lparr>msg_role = assistant, msg_text = txt\<rparr>"

text \<open>The optimistic update: the three setter calls that precede the request.\<close>

definition optimistic_update :: "jsstring \<Rightarrow> state \<Rightarrow> state" where
  "optimistic_update txt s =
     s\<lparr>messages := messages s @ [userMsg txt], chatInput := [], chatLoading := True\<rparr>"

text \<open>The call of \<open>askFollowUpQuestion\<close>, with the arguments built from the closure.\<close>

definition send_request :: "state \<Rightarrow> jsstring \<Rightarrow> state \<Rightarrow> state" where
  "send_request r txt s =
     s\<lparr>responderCalls := responderCalls s @
        [(build_context (the (content r)), messages r @ [userMsg txt], language r)]\<rparr>"

definition handleSendMessage :: "state \<Rightarrow> jsstring option \<Rightarrow> state \<Rightarrow> state" where
  "handleSendMessage r textOverride s =
     (let txt = message_text r textOverride in
      if trim txt = [] \<or> content r = None then s
      else send_request r txt (optimistic_update txt s))"

text \<open>
  After the \<open>await\<close>: the handler has no \<open>try\<close>, so a rejected promise would end it
  with nothing further done; a returned string is appended and spoken.
\<close>

definition handleSendMessage_settled :: "state \<Rightarrow> exn + jsstring \<Rightarrow> state \<Rightarrow> state" where
  "handleSendMessage_settled r res s =
     (case res of
        Inl err \<Rightarrow> s
      | Inr responseText \<Rightarrow>
          speakContent r responseText None
            (s\<lparr>messages := messages s @ [aiMsg responseText], chatLoading := False\<rparr>))"

text \<open>
  The recognition handlers, installed by the effect that depends on \<open>language\<close>; \<open>r\<close>
  is the state of the render whose effect installed them.
\<close>

definition recognition_onresult :: "state \<Rightarrow> jsstring \<Rightarrow> state \<Rightarrow> state" where
  "recognition_onresult r transcript s =
     handleSendMessage r (Some transcript) (s\<lparr>chatInput := transcript\<rparr>)"

definition recognition_onend :: "state \<Rightarrow> state" where
  "recognition_onend s = s\<lparr>isListening := False\<rparr>"

text \<open>
  \<open>toggleListening\<close>: stopping leaves the state to the recognition's \<open>onend\<close>;
  starting sets \<open>isListening\<close>.
\<close>

definition toggleListening :: "state \<Rightarrow> state \<Rightarrow> state" where
  "toggleListening r s = (if isListening r then s else s\<lparr>isListening := True\<rparr>)"

section \<open>App.tsx and ResultPanel: the controls that call the handlers\<close>

text \<open>
  What the user acts on is the render last committed to the page: which controls exist,
  which are disabled, and the handlers attached to them all belong to that render. Each
  control below therefore takes the state \<open>r\<close> of the committed render, which decides
  whether the event reaches a handler and is the handler's closure, and the state \<open>s\<close>
  at the time of the event, which the handler's setters update. After an update and before
  the next commit, \<open>r\<close> is older than \<open>s\<close>.
\<close>

text \<open>
  The Analyze button: \<open>disabled={!image || loading}\<close>, \<open>onClick={handleAnalyze}\<close>. A click
  on a disabled button dispatches nothing.
\<close>

definition analyze_disabled :: "state \<Rightarrow> bool" where
  "analyze_disabled r = (falsy (image r) \<or> loading r)"

definition click_Analyze :: "state \<Rightarrow> state \<Rightarrow> state" where
  "click_Analyze r s = (if analyze_disabled r then s else handleAnalyze r s)"

text \<open>
  The controls of \<open>ResultPanel\<close>: nothing without content; the pause/resume button, the
  stop button and the volume slider while \<open>isSpeaking\<close>; the read-aloud button otherwise.
\<close>

datatype control = PauseResumeButton | StopButton | VolumeSlider | ReadAloudButton

definition ResultPanel :: "state \<Rightarrow> control list" where
  "ResultPanel r =
     (if content r = None then []
      else if isSpeaking r then [PauseResumeButton, StopButton, VolumeSlider]
      else [ReadAloudButton])"

text \<open>A click on a control of the panel reaches its handler only if the control is rendered.\<close>

fun click :: "state \<Rightarrow> control \<Rightarrow> state \<Rightarrow> state" where
  "click r PauseResumeButton s =
     (if PauseResumeButton \<in> set (ResultPanel r) then togglePause r s else s)"
| "click r StopButton s = (if StopButton \<in> set (ResultPanel r) then stopSpeaking s else s)"
| "click r ReadAloudButton s =
     (if ReadAloudButton \<in> set (ResultPanel r) then handleReadAloud r s else s)"
| "click r VolumeSlider s = s"

text \<open>
  The volume slider is a range input with \<open>min="0" max="1" step="0.1"\<close>: its value is one
  of the eleven notches, and \<open>onChange\<close> passes \<open>parseFloat\<close> of it to \<open>setVolume\<close>.
\<close>

definition slider_values :: "jsnum list" where
  "slider_values = map (\<lambda>k. Fin (of_nat k / 10)) [0..<11]"

definition slide_volume :: "state \<Rightarrow> nat \<Rightarrow> state \<Rightarrow> state" where
  "slide_volume r k s =
     (if VolumeSlider \<in> set (ResultPanel r) \<and> k < length slider_values
      then setVolume (slider_values ! k) s else s)"

text \<open>
  The chat input and the send button, rendered when there is content. The send button is
  \<open>disabled={!chatInput.trim() || chatLoading}\<close>; the Enter key of the input calls
  \<open>handleSendMessage()\<close> with no such condition.
\<close>

definition send_disabled :: "state \<Rightarrow> bool" where
  "send_disabled r = (trim (chatInput r) = [] \<or> chatLoading r)"

definition click_Send :: "state \<Rightarrow> state \<Rightarrow> state" where
  "click_Send r s =
     (if content r = None \<or> send_disabled r then s else handleSendMessage r None s)"

definition keydown_Enter :: "state \<Rightarrow> state \<Rightarrow> state" where
  "keydown_Enter r s = (if content r = None then s else handleSendMessage r None s)"

section \<open>The speech queue of the platform\<close>

text \<open>
  What the logged calls mean for the synthesiser's queue, after the Web Speech API:
  \<open>cancel\<close> removes every utterance from the queue, \<open>speak\<close> appends one, \<open>pause\<close>
  and \<open>resume\<close> leave the queue as it is. The utterances still queued after a log of
  calls bound the sessions that can be playing or waiting.
\<close>

fun synth_step :: "nat list \<Rightarrow> synth_call \<Rightarrow> nat list" where
  "synth_step q Cancel = []"
| "synth_step q (Speak uid) = q @ [uid]"
| "synth_step q Pause = q"
| "synth_step q Resume = q"

definition synth_queue :: "synth_call list \<Rightarrow> nat list" where
  "synth_queue calls = foldl synth_step [] calls"

section \<open>The progress of a narration session\<close>

text \<open>
  The progress values a session shows after each of its boundary events, in order,
  starting from state \<open>s\<close>.
\<close>

fun progress_trace :: "nat \<Rightarrow> (jsstring \<times> nat) list \<Rightarrow> state \<Rightarrow> jsnum list" where
  "progress_trace totalLength [] s = []"
| "progress_trace totalLength (e # es) s =
     speechProgress (onboundary totalLength e s) #
     progress_trace totalLength es (onboundary totalLength e s)"

text \<open>
  The state after a session's boundary events, and the progress values of a whole
  session that ends naturally: the value at its start, after each boundary event, and after
  \<open>onend\<close>.
\<close>

fun run_boundaries :: "nat \<Rightarrow> (jsstring \<times> nat) list \<Rightarrow> state \<Rightarrow> state" where
  "run_boundaries totalLength [] s = s"
| "run_boundaries totalLength (e # es) s = run_boundaries totalLength es (onboundary totalLength e s)"

definition session_progress :: "nat \<Rightarrow> (jsstring \<times> nat) list \<Rightarrow> state \<Rightarrow> jsnum list" where
  "session_progress totalLength events s =
     speechProgress s # progress_trace totalLength events s @
     [speechProgress (onend (run_boundaries totalLength events s))]"

section \<open>The user interface as a transition system\<close>

text \<open>Whether a call of \<open>handleSendMessage\<close> passes its test and issues a request.\<close>

definition sends :: "state \<Rightarrow> jsstring option \<Rightarrow> bool" where
  "sends r textOverride = (\<not> (trim (message_text r textOverride) = [] \<or> content r = None))"

text \<open>
  Besides the component's state, the world holds the state shown by the render last
  committed, and what is awaited: the number of analyses and of file reads not yet
  settled, the renders whose \<open>handleSendMessage\<close> awaits the responder (the continuation
  runs in that render's closure), and the render whose effect installed the recognition
  handlers (the first one, then each committed render in which the language differs from
  that of the render before).
\<close>

record world =
  app :: state
  committed :: state
  analyses_in_flight :: nat
  reads_in_flight :: nat
  chats_in_flight :: "state list"
  recognition_render :: state

definition initial_world :: world where
  "initial_world = \<lparr>app = initial_state, committed = initial_state, analyses_in_flight = 0,
     reads_in_flight = 0, chats_in_flight = [], recognition_render = initial_state\<rparr>"

text \<open>
  The events: what the user does with the controls of the committed render, what the
  platform and the services deliver, and \<open>Commit\<close>, by which React renders the current
  state and commits it (the effect on \<open>language\<close> runs then, if the language changed).
  Several events may occur between two commits: two clicks delivered in one task both act
  on the same render. \<open>fire\<close> is \<open>None\<close> where the event cannot occur (its control is
  not in the committed render, nothing is awaited, no such utterance exists); a click on a
  disabled button occurs and changes nothing. Utterance events are admitted for every
  utterance ever created, and recognition events whether or not the microphone is on, at
  any time: more than a browser delivers, which is safe for an invariant.
\<close>

datatype event =
    SelectFile "input_file option"
  | ReaderSettles "jsstring option"
  | RemoveImage
  | SelectLanguage AppLanguage
  | ClickAnalyze
  | AnalyzerSettles "exn + LearningContent"
  | ClickPanel control
  | SlideVolume nat
  | UtteranceBoundary nat "jsstring \<times> nat"
  | UtteranceEnd nat
  | UtteranceError nat
  | TypeChat jsstring
  | PressEnter
  | ClickSend
  | ResponderSettles nat "exn + jsstring"
  | ClearChat
  | ClickMic
  | RecognitionResult jsstring
  | RecognitionEnd
  | Commit

fun fire :: "event \<Rightarrow> world \<Rightarrow> world option" where
  "fire (SelectFile files) w =
     (case handleFileChange files (app w) of
        (s', None) \<Rightarrow> Some (w\<lparr>app := s'\<rparr>)
      | (s', Some f) \<Rightarrow> Some (w\<lparr>app := s', reads_in_flight := Suc (reads_in_flight w)\<rparr>))"
| "fire (ReaderSettles reader_result) w =
     (if reads_in_flight w = 0 then None
      else Some (w\<lparr>app := handleFileChange_settled (fileToBase64 reader_result) (app w),
                    reads_in_flight := reads_in_flight w - 1\<rparr>))"
| "fire RemoveImage w =
     (if falsy (image (committed w)) then None
      else Some (w\<lparr>app := (app w)\<lparr>image := None, error := None\<rparr>\<rparr>))"
| "fire (SelectLanguage l) w = Some (w\<lparr>app := (app w)\<lparr>language := l\<rparr>\<rparr>)"
| "fire ClickAnalyze w =
     Some (w\<lparr>app := click_Analyze (committed w) (app w),
             analyses_in_flight :=
               analyses_in_flight w + (if analyze_disabled (committed w) then 0 else 1)\<rparr>)"
| "fire (AnalyzerSettles res) w =
     (if analyses_in_flight w = 0 then None
      else Some (w\<lparr>app := handleAnalyze_settled res (app w),
                    analyses_in_flight := analyses_in_flight w - 1\<rparr>))"
| "fire (ClickPanel c) w = Some (w\<lparr>app := click (committed w) c (app w)\<rparr>)"
| "fire (SlideVolume k) w = Some (w\<lparr>app := slide_volume (committed w) k (app w)\<rparr>)"
| "fire (UtteranceBoundary uid e) w =
     (if uid < length (utterances (app w))
      then Some (w\<lparr>app := onboundary (length (u_text (utterances (app w) ! uid))) e (app w)\<rparr>)
      else None)"
| "fire (UtteranceEnd uid) w =
     (if uid < length (utterances (app w)) then Some (w\<lparr>app := onend (app w)\<rparr>) else None)"
| "fire (UtteranceError uid) w =
     (if uid < length (utterances (app w)) then Some (w\<lparr>app := onerror (app w)\<rparr>) else None)"
| "fire (TypeChat x) w =
     (if content (committed w) = None then None
      else Some (w\<lparr>app := (app w)\<lparr>chatInput := x\<rparr>\<rparr>))"
| "fire PressEnter w =
     (if content (committed w) = None then None
      else Some (w\<lparr>app := keydown_Enter (committed w) (app w),
                    chats_in_flight := chats_in_flight w @
                      (if sends (committed w) None then [committed w] else [])\<rparr>))"
| "fire ClickSend w =
     (if content (committed w) = None then None
      else Some (w\<lparr>app := click_Send (committed w) (app w),
                    chats_in_flight := chats_in_flight w @
                      (if \<not> send_disabled (committed w) \<and> sends (committed w) None
                       then [committed w] else [])\<rparr>))"
| "fire (ResponderSettles i res) w =
     (if i < length (chats_in_flight w)
      then Some (w\<lparr>app := handleSendMessage_settled (chats_in_flight w ! i) res (app w),
                    chats_in_flight := take i (chats_in_flight w) @ drop (Suc i) (chats_in_flight w)\<rparr>)
      else None)"
| "fire ClearChat w =
     (if content (committed w) = None \<or> messages (committed w) = [] then None
      else Some (w\<lparr>app := (app w)\<lparr>messages := []\<rparr>\<rparr>))"
| "fire ClickMic w =
     (if content (committed w) = None then None
      else Some (w\<lparr>app := toggleListening (committed w) (app w)\<rparr>))"
| "fire (RecognitionResult transcript) w =
     Some (w\<lparr>app := recognition_onresult (recognition_render w) transcript (app w),
             chats_in_flight := chats_in_flight w @
               (if sends (recognition_render w) (Some transcript) then [recognition_render w] else [])\<rparr>)"
| "fire RecognitionEnd w = Some (w\<lparr>app := recognition_onend (app w)\<rparr>)"
| "fire Commit w =
     Some (w\<lparr>committed := app w,
             recognition_render :=
               (if language (app w) = language (committed w) then recognition_render w else app w)\<rparr>)"

text \<open>The worlds reachable from the first render by events.\<close>

inductive reachable :: "world \<Rightarrow> bool" where
  initial: "reachable initial_world"
| event: "reachable w \<Longrightarrow> fire e w = Some w' \<Longrightarrow> reachable w'"

fun run :: "event list \<Rightarrow> world \<Rightarrow> world option" where
  "run [] w = Some w"
| "run (e # es) w = (case fire e w of None \<Rightarrow> None | Some w' \<Rightarrow> run es w')"

text \<open>
  The clicks whose effect depends on the render being up to date: those on the Analyze
  button and on the controls of the panel. \<open>run_rendered\<close> runs a list of events as
  \<open>run\<close> does, but admits such a click only when the committed render shows the current
  state; \<open>reachable_rendered\<close> are the worlds reached that way.
\<close>

fun render_sensitive :: "event \<Rightarrow> bool" where
  "render_sensitive ClickAnalyze = True"
| "render_sensitive (ClickPanel c) = True"
| "render_sensitive e = False"

definition up_to_date :: "event \<Rightarrow> world \<Rightarrow> bool" where
  "up_to_date e w = (\<not> render_sensitive e \<or> committed w = app w)"


fun run_rendered :: "event list \<Rightarrow> world \<Rightarrow> world option" where
  "run_rendered [] w = Some w"
| "run_rendered (e # es) w =
     (if up_to_date e w
      then (case fire e w of None \<Rightarrow> None | Some w' \<Rightarrow> run_rendered es w')
      else None)"


definition queue_bounded :: "state \<Rightarrow> bool" where
  "queue_bounded s = (length (synth_queue (synthCalls s)) \<le> 1)"

definition volume_in_range :: "state \<Rightarrow> bool" where
  "volume_in_range s = (js_le (Fin 0) (speechVolume s) \<and> js_le (speechVolume s) (Fin 1))"


section \<open>Sample states and runs\<close>

text \<open>Concrete values used below.\<close>

definition sample_content :: LearningContent where
  "sample_content = \<lparr>topic = str ''Photosynthesis'', short_reading = str ''Plants make food.'',
     simple_explanation = str ''Leaves turn light into sugar.'',
     key_points = [str ''a'', str ''b'', str ''c''],
     example = str ''A leaf in the sun.'', quiz = str ''What do leaves need?''\<rparr>"

definition png :: "nat \<Rightarrow> input_file" where
  "png n = \<lparr>f_type = str ''image/png'', f_size = n\<rparr>"

definition pdf :: "nat \<Rightarrow> input_file" where
  "pdf n = \<lparr>f_type = str ''application/pdf'', f_size = n\<rparr>"

text \<open>A state with an image loaded, and the state after \<open>handleAnalyze\<close> has run in it.\<close>

definition ready_state :: state where
  "ready_state = initial_state\<lparr>image := Some (str ''QUJD'')\<rparr>"


text \<open>A state after a successful analysis.\<close>

definition studying_state :: state where
  "studying_state = ready_state\<lparr>content := Some sample_content\<rparr>"

text \<open>
  Sample runs from the first render. An image is loaded and committed (\<open>load_image\<close>),
  and analysed with the result committed (\<open>analyse_image\<close>). Then: the Analyze button is
  clicked twice with a commit in between, or twice on the same render; a study session in
  which the content is read aloud, the volume moved, and a question asked and answered; a
  session in which a second question is typed while the first is unanswered, and sent with
  the Enter key; a narration that is paused, one that is paused and resumed, and one that is
  stopped and then paused on the same render.
\<close>

definition load_image :: "event list" where
  "load_image =
     [SelectFile (Some (png 3)), ReaderSettles (Some (str ''data:image/png;base64,QUJD'')), Commit]"

definition analyse_image :: "event list" where
  "analyse_image = load_image @ [ClickAnalyze, AnalyzerSettles (Inr sample_content), Commit]"

definition analyze_twice :: "event list" where
  "analyze_twice = load_image @ [ClickAnalyze, Commit, ClickAnalyze]"

definition analyze_twice_one_render :: "event list" where
  "analyze_twice_one_render = load_image @ [ClickAnalyze, ClickAnalyze]"

definition study_and_ask :: "event list" where
  "study_and_ask = analyse_image @
     [ClickPanel ReadAloudButton, Commit, SlideVolume 3, TypeChat (str ''Why?''), Commit,
      PressEnter, ResponderSettles 0 (Inr (str ''Because.''))]"

definition ask_and_type :: "event list" where
  "ask_and_type = analyse_image @
     [TypeChat (str ''Why?''), Commit, PressEnter, TypeChat (str ''And how?''), Commit]"

definition ask_twice :: "event list" where
  "ask_twice = ask_and_type @ [PressEnter]"

definition read_and_pause :: "event list" where
  "read_and_pause = analyse_image @
     [ClickPanel ReadAloudButton, Commit, ClickPanel PauseResumeButton]"

definition read_pause_resume :: "event list" where
  "read_pause_resume = read_and_pause @ [Commit, ClickPanel PauseResumeButton]"

definition stop_then_pause :: "event list" where
  "stop_then_pause = analyse_image @
     [ClickPanel ReadAloudButton, Commit, ClickPanel StopButton, ClickPanel PauseResumeButton]"

text \<open>
  Runs with the microphone. The recognition handlers are those of the first render unless
  the language has changed since. In \<open>listen_after_analysis\<close> the microphone is
  switched on after the analysis. In \<open>voice_after_chat\<close> the language is changed once
  after the analysis, a question is typed and answered, and a second one is spoken; in
  \<open>typed_after_chat\<close> the second question is typed instead. In \<open>ask_and_listen\<close> the
  microphone is switched on while a typed question is unanswered, and in
  \<open>ask_and_listen_new_handlers\<close> the same happens after a change of language.
\<close>

definition listen_after_analysis :: "event list" where
  "listen_after_analysis = analyse_image @ [ClickMic]"

definition voice_after_chat :: "event list" where
  "voice_after_chat = analyse_image @
     [SelectLanguage HINDI, Commit, TypeChat (str ''Why?''), Commit, PressEnter,
      ResponderSettles 0 (Inr (str ''Because.'')), Commit,
      ClickMic, RecognitionResult (str ''Really?'')]"

definition typed_after_chat :: "event list" where
  "typed_after_chat = analyse_image @
     [SelectLanguage HINDI, Commit, TypeChat (str ''Why?''), Commit, PressEnter,
      ResponderSettles 0 (Inr (str ''Because.'')), Commit,
      TypeChat (str ''Really?''), Commit, PressEnter]"

definition ask_and_listen :: "event list" where
  "ask_and_listen = analyse_image @
     [TypeChat (str ''Why?''), Commit, PressEnter, Commit, ClickMic]"

definition ask_and_listen_new_handlers :: "event list" where
  "ask_and_listen_new_handlers = analyse_image @
     [SelectLanguage HINDI, Commit, TypeChat (str ''Why?''), Commit, PressEnter, Commit, ClickMic]"

section \<open>Properties\<close>

subsection \<open>Rounding to a double keeps the order\<close>

text \<open>
  The exponent brackets its argument, and is the only integer that does; rounding to
  an integer and rounding to a double are monotone, so the quotient and the product of
  the progress percentage keep the order of their exact values.
\<close>

lemma pow2_le_of_nat: "2 ^ j \<le> (m::nat) \<Longrightarrow> (2::rat) ^ j \<le> of_nat m"
proof -
  assume "2 ^ j \<le> m"
  then have "(of_nat (2 ^ j) :: rat) \<le> of_nat m" by (rule of_nat_mono)
  then show ?thesis by simp
qed

lemma of_nat_le_pow2: "(c::nat) \<le> 2 ^ k \<Longrightarrow> of_nat c \<le> (2::rat) ^ k"
proof -
  assume "c \<le> 2 ^ k"
  then have "(of_nat c :: rat) \<le> of_nat (2 ^ k)" by (rule of_nat_mono)
  then show ?thesis by simp
qed

lemma ilog2_bounds:
  assumes "0 < x"
  shows "2 powi ilog2 x \<le> x \<and> x < 2 powi (ilog2 x + 1)"
proof (cases "1 \<le> x")
  case True
  define m where "m = nat \<lfloor>x\<rfloor>"
  define k where "k = floorlog 2 m"
  have m1: "1 \<le> m" using True by (simp add: m_def le_nat_iff)
  then have m0: "0 < m" by simp
  have b: "2 ^ (k - 1) \<le> m \<and> m < 2 ^ k"
    unfolding k_def using floorlog_bounds [OF m0, of 2] by simp
  have k1: "1 \<le> k" using m0 by (simp add: k_def floorlog_def)
  have il: "ilog2 x = int k - 1" using True by (simp add: ilog2_def k_def m_def)
  have mx: "of_nat m \<le> x" using True by (simp add: m_def)
  have xm: "x < of_nat m + 1" using True by (simp add: m_def) linarith
  have lo: "(2::rat) ^ (k - 1) \<le> of_nat m"
    using b by (simp add: pow2_le_of_nat)
  have "m + 1 \<le> 2 ^ k" using b by linarith
  then have "of_nat (m + 1) \<le> (2::rat) ^ k" by (rule of_nat_le_pow2)
  then have hi: "of_nat m + 1 \<le> (2::rat) ^ k" by simp
  have p1: "(2::rat) powi (int k - 1) = 2 ^ (k - 1)"
    using k1 by (simp add: power_int_def nat_diff_distrib' of_nat_diff)
  have p2: "(2::rat) powi (int k - 1 + 1) = 2 ^ k" by simp
  have "2 powi ilog2 x \<le> x"
    unfolding il p1 using lo mx by (rule order_trans)
  moreover have "x < 2 powi (ilog2 x + 1)"
    unfolding il p2 using xm hi by (rule less_le_trans)
  ultimately show ?thesis by blast
next
  case False
  then have x1: "x < 1" by simp
  define c where "c = nat \<lceil>1 / x\<rceil>"
  define k where "k = floorlog 2 (c - 1)"
  have inv1: "1 < 1 / x" using assms x1 by simp
  then have c2: "2 \<le> c" by (simp add: c_def le_nat_iff)
  then have c0: "0 < c - 1" by simp
  have b: "2 ^ (k - 1) \<le> c - 1 \<and> c - 1 < 2 ^ k"
    unfolding k_def using floorlog_bounds [OF c0, of 2] by simp
  have k1: "1 \<le> k" using c0 by (simp add: k_def floorlog_def)
  have il: "ilog2 x = - int k" using False by (simp add: ilog2_def k_def c_def)
  have cpos: "0 \<le> \<lceil>1 / x\<rceil>" using inv1 by (simp add: le_ceiling_iff)
  have cx: "1 / x \<le> of_nat c"
    unfolding c_def using cpos by (simp add: le_of_int_ceiling)
  have xc: "of_nat c - 1 < 1 / x"
    unfolding c_def using cpos by (simp add: of_int_ceiling_diff_one_le) linarith
  have "c \<le> 2 ^ k" using b c2 by linarith
  then have hi: "of_nat c \<le> (2::rat) ^ k" by (rule of_nat_le_pow2)
  have "2 ^ (k - 1) \<le> c - 1" using b by simp
  then have "(2::rat) ^ (k - 1) \<le> of_nat (c - 1)" by (rule pow2_le_of_nat)
  then have "(2::rat) ^ (k - 1) \<le> of_nat c - 1" using c2 by (simp add: of_nat_diff)
  then have lo: "(2::rat) ^ (k - 1) < 1 / x" using xc by (rule le_less_trans)
  have "1 / x \<le> (2::rat) ^ k" using cx hi by (rule order_trans)
  then have a: "1 / 2 ^ k \<le> x" using assms by (simp add: field_simps)
  have bb: "x < 1 / 2 ^ (k - 1)" using lo assms by (simp add: field_simps)
  have p1: "(2::rat) powi (- int k) = 1 / 2 ^ k"
    by (simp add: power_int_minus_divide)
  have e: "- int k + 1 = - int (k - 1)" using k1 by simp
  have p2: "(2::rat) powi (- int k + 1) = 1 / 2 ^ (k - 1)"
    unfolding e by (simp only: power_int_minus_divide power_int_of_nat)
  have "2 powi ilog2 x \<le> x" unfolding il p1 by (rule a)
  moreover have "x < 2 powi (ilog2 x + 1)" unfolding il p2 by (rule bb)
  ultimately show ?thesis by blast
qed
lemma ilog2_unique:
  assumes "2 powi k \<le> x" "x < 2 powi (k + 1)"
  shows "ilog2 x = k"
proof -
  have pos: "0 < x" using assms(1) by (rule less_le_trans [rotated]) simp
  note b = ilog2_bounds [OF pos]
  have "\<not> ilog2 x < k"
  proof
    assume "ilog2 x < k"
    then have "ilog2 x + 1 \<le> k" by simp
    then have "(2::rat) powi (ilog2 x + 1) \<le> 2 powi k" by (simp add: power_int_increasing)
    then show False using b assms(1) by linarith
  qed
  moreover have "\<not> k < ilog2 x"
  proof
    assume "k < ilog2 x"
    then have "k + 1 \<le> ilog2 x" by simp
    then have "(2::rat) powi (k + 1) \<le> 2 powi ilog2 x" by (simp add: power_int_increasing)
    then show False using b assms(2) by linarith
  qed
  ultimately show ?thesis by simp
qed

lemma ilog2_mono:
  assumes "0 < x" "x \<le> y"
  shows "ilog2 x \<le> ilog2 y"
proof (rule ccontr)
  assume "\<not> ilog2 x \<le> ilog2 y"
  then have "ilog2 y + 1 \<le> ilog2 x" by simp
  then have "(2::rat) powi (ilog2 y + 1) \<le> 2 powi ilog2 x" by (simp add: power_int_increasing)
  moreover have "0 < y" using assms by simp
  ultimately show False
    using ilog2_bounds [OF assms(1)] ilog2_bounds [of y] assms(2) by linarith
qed

lemma round_even_of_int: "round_even (of_int k) = k"
  by (simp add: round_even_def)

lemma round_even_floor: "\<lfloor>r\<rfloor> \<le> round_even r \<and> round_even r \<le> \<lfloor>r\<rfloor> + 1"
  by (simp add: round_even_def Let_def)

lemma round_even_mono:
  assumes "r \<le> r'"
  shows "round_even r \<le> round_even r'"
proof (cases "\<lfloor>r\<rfloor> = \<lfloor>r'\<rfloor>")
  case True
  have "r - of_int \<lfloor>r'\<rfloor> \<le> r' - of_int \<lfloor>r'\<rfloor>" using assms by simp
  then show ?thesis using True by (auto simp: round_even_def Let_def)
next
  case False
  have "\<lfloor>r\<rfloor> \<le> \<lfloor>r'\<rfloor>" using assms by (rule floor_mono)
  then have "\<lfloor>r\<rfloor> + 1 \<le> \<lfloor>r'\<rfloor>" using False by simp
  then show ?thesis using round_even_floor [of r] round_even_floor [of r'] by linarith
qed

lemma round_even_le: "r \<le> of_int b \<Longrightarrow> round_even r \<le> b"
  using round_even_mono [of r "of_int b"] by (simp add: round_even_of_int)

lemma round_even_ge: "of_int a \<le> r \<Longrightarrow> a \<le> round_even r"
  using round_even_mono [of "of_int a" r] by (simp add: round_even_of_int)
lemma nearest_double_alt:
  "nearest_double x = of_int (round_even (x / 2 powi (binade x - 52))) * 2 powi (binade x - 52)"
  by (simp add: nearest_double_def binade_def Let_def)

lemma binade_mono: "0 < x \<Longrightarrow> x \<le> y \<Longrightarrow> binade x \<le> binade y"
  using ilog2_mono [of x y] by (simp add: binade_def)

lemma below_binade_top:
  assumes "0 < x"
  shows "x < 2 powi (binade x + 1)"
proof -
  have "ilog2 x + 1 \<le> binade x + 1" by (simp add: binade_def)
  then have "(2::rat) powi (ilog2 x + 1) \<le> 2 powi (binade x + 1)"
    by (simp add: power_int_increasing)
  then show ?thesis using ilog2_bounds [OF assms] by linarith
qed

lemma nearest_double_nonneg:
  assumes "0 \<le> x"
  shows "0 \<le> nearest_double x"
proof -
  have "0 \<le> x / 2 powi (binade x - 52)" using assms by simp
  then have "0 \<le> round_even (x / 2 powi (binade x - 52))"
    using round_even_ge [of 0] by simp
  then show ?thesis by (simp add: nearest_double_alt)
qed

lemma nearest_double_le_top:
  assumes "0 < x"
  shows "nearest_double x \<le> 2 powi (binade x + 1)"
proof -
  let ?u = "(2::rat) powi (binade x - 52)"
  have u: "0 < ?u" by simp
  have e: "binade x + 1 = 53 + (binade x - 52)" by simp
  have split: "(2::rat) powi (binade x + 1) = 2 powi 53 * ?u"
    by (subst e, rule power_int_add) simp
  have "x < 2 powi 53 * ?u"
    using below_binade_top [OF assms] by (simp only: split)
  then have "x / ?u < 2 powi 53"
    using u by (simp only: pos_divide_less_eq)
  then have "x / ?u \<le> of_int (2 ^ 53)" by simp
  then have "round_even (x / ?u) \<le> 2 ^ 53" by (rule round_even_le)
  then have "of_int (round_even (x / ?u)) \<le> (of_int (2 ^ 53) :: rat)" by (simp only: of_int_le_iff)
  then have "of_int (round_even (x / ?u)) * ?u \<le> 2 powi 53 * ?u"
    using u by simp
  then show ?thesis by (simp only: nearest_double_alt split)
qed

lemma nearest_double_ge_bottom:
  assumes "0 < x" "- 1022 \<le> ilog2 x"
  shows "2 powi binade x \<le> nearest_double x"
proof -
  let ?u = "(2::rat) powi (binade x - 52)"
  have u: "0 < ?u" by simp
  have be: "binade x = ilog2 x" using assms(2) by (simp add: binade_def)
  have e: "binade x = 52 + (binade x - 52)" by simp
  have split: "(2::rat) powi binade x = 2 powi 52 * ?u"
    by (subst e, rule power_int_add) simp
  have "2 powi binade x \<le> x"
    using ilog2_bounds [OF assms(1)] by (simp only: be)
  then have "2 powi 52 * ?u \<le> x" by (simp only: split)
  then have "2 powi 52 \<le> x / ?u" using u by (simp only: pos_le_divide_eq)
  then have "of_int (2 ^ 52) \<le> x / ?u" by simp
  then have "2 ^ 52 \<le> round_even (x / ?u)" by (rule round_even_ge)
  then have "(of_int (2 ^ 52) :: rat) \<le> of_int (round_even (x / ?u))" by (simp only: of_int_le_iff)
  then have "2 powi 52 * ?u \<le> of_int (round_even (x / ?u)) * ?u"
    using u by simp
  then show ?thesis by (simp only: nearest_double_alt split)
qed

lemma nearest_double_mono:
  assumes "0 < x" "x \<le> y"
  shows "nearest_double x \<le> nearest_double y"
proof (cases "binade x = binade y")
  case True
  let ?u = "(2::rat) powi (binade y - 52)"
  have u: "0 < ?u" by simp
  have "x / ?u \<le> y / ?u" using assms(2) u by (simp add: divide_right_mono)
  then have "round_even (x / ?u) \<le> round_even (y / ?u)" by (rule round_even_mono)
  then have "(of_int (round_even (x / ?u)) :: rat) \<le> of_int (round_even (y / ?u))" by simp
  then have "of_int (round_even (x / ?u)) * ?u \<le> of_int (round_even (y / ?u)) * ?u"
    using u by simp
  then show ?thesis by (simp only: nearest_double_alt True)
next
  case False
  have y: "0 < y" using assms by simp
  have "binade x \<le> binade y" using assms by (rule binade_mono)
  then have lt: "binade x + 1 \<le> binade y" using False by simp
  then have "- 1022 < binade y" by (simp add: binade_def)
  then have "- 1022 \<le> ilog2 y" by (simp add: binade_def max_def split: if_splits)
  then have "2 powi binade y \<le> nearest_double y" using y nearest_double_ge_bottom by simp
  moreover have "(2::rat) powi (binade x + 1) \<le> 2 powi binade y"
    using lt by (simp add: power_int_increasing)
  ultimately show ?thesis using nearest_double_le_top [OF assms(1)] by linarith
qed

lemma ilog2_0: "ilog2 0 = 0"
  by (simp add: ilog2_def floorlog_def)

lemma to_double_nonneg: "0 \<le> x \<Longrightarrow> nonneg (to_double x)"
  by (simp add: to_double_def nearest_double_nonneg)

lemma to_double_mono:
  assumes "0 \<le> x" "x \<le> y"
  shows "js_le (to_double x) (to_double y)"
proof (cases "x = 0")
  case True
  have "nonneg (to_double y)" using assms by (simp add: to_double_nonneg)
  then show ?thesis using True by (cases "to_double y") (simp_all add: to_double_def)
next
  case False
  then have x: "0 < x" using assms by simp
  then have y: "0 < y" using assms by simp
  have le: "nearest_double x \<le> nearest_double y" using x assms(2) by (rule nearest_double_mono)
  have nn: "0 \<le> nearest_double x" using assms(1) by (rule nearest_double_nonneg)
  show ?thesis
  proof (cases "nearest_double x = 0")
    case True
    have "nonneg (to_double y)" using y by (simp add: to_double_nonneg)
    moreover have "to_double x = Fin 0" using x True by (simp add: to_double_def ilog2_0)
    ultimately show ?thesis by (cases "to_double y") simp_all
  next
    case False
    then have "0 < nearest_double x" using nn by simp
    then have "ilog2 (nearest_double x) \<le> ilog2 (nearest_double y)" using le by (rule ilog2_mono)
    then show ?thesis using x y le by (simp add: to_double_def)
  qed
qed

lemma js_le_trans: "js_le a b \<Longrightarrow> js_le b c \<Longrightarrow> js_le a c"
  by (cases a; cases b; cases c) auto

lemma js_mul_100_nonneg: "nonneg a \<Longrightarrow> nonneg (js_mul a 100)"
  by (cases a) (simp_all add: to_double_nonneg)

lemma js_mul_100_mono:
  assumes "nonneg a" "js_le a b"
  shows "js_le (js_mul a 100) (js_mul b 100)"
proof (cases a)
  case (Fin p)
  then have p: "0 \<le> p" using assms(1) by simp
  show ?thesis
  proof (cases b)
    case (Fin q)
    then have "p \<le> q" using assms(2) \<open>a = Fin p\<close> by simp
    then have "p * 100 \<le> q * 100" by simp
    moreover have "0 \<le> p * 100" using p by simp
    ultimately show ?thesis using \<open>a = Fin p\<close> Fin by (simp add: to_double_mono)
  next
    case PosInf
    have "nonneg (to_double (p * 100))" using p by (simp add: to_double_nonneg)
    then show ?thesis using \<open>a = Fin p\<close> PosInf by (cases "to_double (p * 100)") simp_all
  qed (use assms \<open>a = Fin p\<close> in simp_all)
next
  case PosInf
  then show ?thesis using assms by (cases b) simp_all
qed (use assms in simp_all)

lemma Math_min_100_range: "nonneg a \<Longrightarrow> js_le (Fin 0) (Math_min a (Fin 100)) \<and> js_le (Math_min a (Fin 100)) (Fin 100)"
  by (cases a) simp_all

lemma Math_min_100_mono: "js_le a b \<Longrightarrow> js_le (Math_min a (Fin 100)) (Math_min b (Fin 100))"
  by (cases a; cases b) (auto simp: min_le_iff_disj)

lemma js_div_nonneg: "0 < n \<Longrightarrow> nonneg (js_div i n)"
  by (simp add: js_div_def to_double_nonneg)

lemma js_div_mono: "0 < n \<Longrightarrow> i \<le> j \<Longrightarrow> js_le (js_div i n) (js_div j n)"
  by (simp add: js_div_def to_double_mono divide_right_mono)

lemma progress_percent_range:
  assumes "0 < n"
  shows "js_le (Fin 0) (progress_percent i n) \<and> js_le (progress_percent i n) (Fin 100)"
  unfolding progress_percent_def
  using assms by (intro Math_min_100_range js_mul_100_nonneg js_div_nonneg)

lemma progress_percent_mono:
  assumes "0 < n" "i \<le> j"
  shows "js_le (progress_percent i n) (progress_percent j n)"
  unfolding progress_percent_def
  using assms by (intro Math_min_100_mono js_mul_100_mono js_div_nonneg js_div_mono)

subsection \<open>Strings and the speech queue\<close>

lemma str_Nil_iff: "str s = [] \<longleftrightarrow> s = []"
  by (simp add: str_def)

lemma dropWhile_all_iff: "(\<forall>x\<in>set (dropWhile P xs). P x) \<longleftrightarrow> dropWhile P xs = []"
proof
  assume a: "\<forall>x\<in>set (dropWhile P xs). P x"
  show "dropWhile P xs = []"
  proof (rule ccontr)
    assume ne: "dropWhile P xs \<noteq> []"
    then have "\<not> P (hd (dropWhile P xs))" by (rule hd_dropWhile)
    moreover from ne have "hd (dropWhile P xs) \<in> set (dropWhile P xs)" by simp
    ultimately show False using a by blast
  qed
next
  assume h: "dropWhile P xs = []"
  show "\<forall>x\<in>set (dropWhile P xs). P x" unfolding h by simp
qed

lemma trim_blank_iff: "trim s = [] \<longleftrightarrow> (\<forall>c\<in>set s. js_whitespace c)"
  by (simp add: trim_def dropWhile_all_iff dropWhile_eq_Nil_conv)

lemma synth_queue_append: "synth_queue (xs @ ys) = foldl synth_step (synth_queue xs) ys"
  by (simp add: synth_queue_def)

subsection \<open>Frames of the handlers and invariants of the reachable worlds\<close>

lemmas handler_defs =
  stopSpeaking_def togglePause_def speakContent_def speakContent_begin_def handleReadAloud_def
  setVolume_def volume_effect_def slide_volume_def onboundary_def onend_def onerror_def
  handleSendMessage_def handleSendMessage_settled_def send_request_def optimistic_update_def
  recognition_onresult_def recognition_onend_def click_Send_def keydown_Enter_def
  toggleListening_def handleFileChange_def handleFileChange_settled_def handleAnalyze_def
  handleAnalyze_settled_def click_Analyze_def Let_def





lemma queue_bounded_set:
  "queue_bounded (stopSpeaking s)"
  "queue_bounded (speakContent r txt fl s)"
  by (simp_all add: queue_bounded_def stopSpeaking_def speakContent_def speakContent_begin_def
      Let_def synth_queue_append)

lemma queue_bounded_frame:
  assumes "queue_bounded s"
  shows "queue_bounded (togglePause r s)"
    "queue_bounded (handleReadAloud r s)"
    "queue_bounded (setVolume v s)"
    "queue_bounded (slide_volume r k s)"
    "queue_bounded (onboundary n e s)"
    "queue_bounded (onend s)"
    "queue_bounded (onerror s)"
    "queue_bounded (handleSendMessage r t s)"
    "queue_bounded (handleSendMessage_settled r res s)"
    "queue_bounded (recognition_onresult r transcript s)"
    "queue_bounded (recognition_onend s)"
    "queue_bounded (click_Send r s)"
    "queue_bounded (keydown_Enter r s)"
    "queue_bounded (toggleListening r s)"
    "queue_bounded (fst (handleFileChange files s))"
    "queue_bounded (handleFileChange_settled fres s)"
    "queue_bounded (handleAnalyze r s)"
    "queue_bounded (click_Analyze r s)"
    "queue_bounded (handleAnalyze_settled ares s)"
    "queue_bounded (s\<lparr>image := i, error := er\<rparr>)"
    "queue_bounded (s\<lparr>language := l\<rparr>)"
    "queue_bounded (s\<lparr>chatInput := x\<rparr>)"
    "queue_bounded (s\<lparr>messages := ms\<rparr>)"
  using assms
  by (simp_all add: queue_bounded_def handler_defs synth_queue_append
      split: option.splits sum.splits)

lemma queue_bounded_click: "queue_bounded s \<Longrightarrow> queue_bounded (click r c s)"
  by (cases c) (simp_all add: queue_bounded_frame queue_bounded_set)

lemma fire_queue_bounded:
  assumes "fire e w = Some w'" "queue_bounded (app w)"
  shows "queue_bounded (app w')"
proof (cases e)
  case (SelectFile files)
  then show ?thesis using assms queue_bounded_frame(15) [of "app w" files]
    by (auto split: prod.splits option.splits)
qed (use assms in \<open>auto simp: queue_bounded_frame queue_bounded_click Let_def split: if_splits\<close>)

lemma reachable_queue_bounded: "reachable w \<Longrightarrow> queue_bounded (app w)"
proof (induction rule: reachable.induct)
  case initial
  show ?case by (simp add: queue_bounded_def initial_world_def initial_state_def synth_queue_def)
next
  case (event w e w')
  then show ?case using fire_queue_bounded by blast
qed

lemma volume_frame:
  "speechVolume (stopSpeaking s) = speechVolume s"
  "speechVolume (togglePause r s) = speechVolume s"
  "speechVolume (speakContent r txt fl s) = speechVolume s"
  "speechVolume (handleReadAloud r s) = speechVolume s"
  "speechVolume (onboundary n e s) = speechVolume s"
  "speechVolume (onend s) = speechVolume s"
  "speechVolume (onerror s) = speechVolume s"
  "speechVolume (handleSendMessage r t s) = speechVolume s"
  "speechVolume (handleSendMessage_settled r res s) = speechVolume s"
  "speechVolume (recognition_onresult r transcript s) = speechVolume s"
  "speechVolume (recognition_onend s) = speechVolume s"
  "speechVolume (click_Send r s) = speechVolume s"
  "speechVolume (keydown_Enter r s) = speechVolume s"
  "speechVolume (toggleListening r s) = speechVolume s"
  "speechVolume (fst (handleFileChange files s)) = speechVolume s"
  "speechVolume (handleFileChange_settled fres s) = speechVolume s"
  "speechVolume (handleAnalyze r s) = speechVolume s"
  "speechVolume (click_Analyze r s) = speechVolume s"
  "speechVolume (handleAnalyze_settled ares s) = speechVolume s"
  by (simp_all add: handler_defs split: option.splits sum.splits)

lemma volume_click: "speechVolume (click r c s) = speechVolume s"
  by (cases c) (simp_all add: volume_frame)

lemma slider_values_range: "x \<in> set slider_values \<Longrightarrow> js_le (Fin 0) x \<and> js_le x (Fin 1)"
  by (auto simp: slider_values_def)

lemma slide_volume_range: "volume_in_range s \<Longrightarrow> volume_in_range (slide_volume r k s)"
proof (cases "VolumeSlider \<in> set (ResultPanel r) \<and> k < length slider_values")
  case True
  then have "speechVolume (slide_volume r k s) = slider_values ! k"
    by (simp add: slide_volume_def setVolume_def volume_effect_def split: option.splits)
  moreover from True have "slider_values ! k \<in> set slider_values" by simp
  ultimately show ?thesis using slider_values_range by (simp add: volume_in_range_def)
next
  case False
  assume "volume_in_range s"
  moreover from False have "slide_volume r k s = s" by (auto simp: slide_volume_def)
  ultimately show ?thesis by simp
qed

lemma fire_volume_in_range:
  assumes "fire e w = Some w'" "volume_in_range (app w)"
  shows "volume_in_range (app w')"
proof (cases e)
  case (SelectFile files)
  then show ?thesis using assms volume_frame(15) [of files "app w"]
    by (auto simp: volume_in_range_def split: prod.splits option.splits)
next
  case (SlideVolume k)
  then show ?thesis using assms slide_volume_range by auto
qed (use assms in \<open>auto simp: volume_in_range_def volume_frame volume_click Let_def split: if_splits\<close>)

lemma reachable_volume_in_range: "reachable w \<Longrightarrow> volume_in_range (app w)"
proof (induction rule: reachable.induct)
  case initial
  show ?case by (simp add: volume_in_range_def initial_world_def initial_state_def)
next
  case (event w e w')
  then show ?case using fire_volume_in_range by blast
qed






lemma reachable_run: "reachable w \<Longrightarrow> run es w = Some w' \<Longrightarrow> reachable w'"
proof (induction es arbitrary: w)
  case Nil
  then show ?case by simp
next
  case (Cons e es)
  from Cons.prems(2) obtain w1 where f: "fire e w = Some w1" and r: "run es w1 = Some w'"
    by (auto split: option.splits)
  from Cons.prems(1) f have "reachable w1" by (rule reachable.event)
  then show ?case using r by (rule Cons.IH)
qed


subsection \<open>The progress percentage\<close>

text \<open>
  Some values of the rounding: 0.1 is not a double, and above \<open>2^53\<close> the doubles are
  the even integers, the odd ones going to the neighbour whose last bit is 0.
\<close>

lemma to_double_tenth: "to_double (1 / 10) = Fin (3602879701896397 / 36028797018963968)"
  by code_simp

lemma to_double_tie_down: "to_double 9007199254740993 = Fin 9007199254740992"
  by code_simp

lemma to_double_tie_up: "to_double 9007199254740995 = Fin 9007199254740996"
  by code_simp

lemma to_double_1: "to_double 1 = Fin 1"
  by code_simp

lemma to_double_100: "to_double 100 = Fin 100"
  by code_simp

lemma Math_min_100_top: "js_le (Fin 100) a \<Longrightarrow> Math_min a (Fin 100) = Fin 100"
  by (cases a) simp_all

lemma progress_percent_start: "0 < n \<Longrightarrow> progress_percent 0 n = Fin 0"
  by (simp add: progress_percent_def js_div_def to_double_def)

lemma progress_percent_full:
  assumes "0 < n" "n \<le> i"
  shows "progress_percent i n = Fin 100"
proof -
  have one: "js_div n n = Fin 1" using assms(1) by (simp add: js_div_def to_double_1)
  have "js_le (js_div n n) (js_div i n)" using assms by (rule js_div_mono)
  then have "js_le (js_mul (Fin 1) 100) (js_mul (js_div i n) 100)"
    unfolding one by (intro js_mul_100_mono) simp_all
  then have "js_le (Fin 100) (js_mul (js_div i n) 100)" by (simp add: to_double_100)
  then show ?thesis unfolding progress_percent_def by (rule Math_min_100_top)
qed

text \<open>The values at the offsets used below, as the doubles they are.\<close>

lemma progress_percent_0_11: "progress_percent 0 11 = Fin 0"
  by code_simp

lemma progress_percent_6_11: "progress_percent 6 11 = Fin (7676590273926981 / 140737488355328)"
  by code_simp

lemma progress_percent_7_25: "progress_percent 7 25 = Fin (7881299347898369 / 281474976710656)"
  by code_simp

text \<open>Two offsets at which the product lies halfway between two doubles.\<close>

lemma progress_percent_8_27: "progress_percent 8 27 = Fin (4169999654972681 / 140737488355328)"
  by code_simp

lemma progress_percent_7_23: "progress_percent 7 23 = Fin (1070828715747061 / 35184372088832)"
  by code_simp

lemma length_hello_world: "length (str ''Hello world'') = 11"
  by (simp add: str_def)

lemma length_plants: "length (str ''Plants make food from sun'') = 25"
  by (simp add: str_def)

text \<open>The progress after a boundary event is the old one or the event's percentage.\<close>

lemma onboundary_progress:
  "speechProgress (onboundary n e s) =
     (if fst e = str ''word'' then progress_percent (snd e) n else speechProgress s)"
  by (simp add: onboundary_def)

lemma progress_trace_bounds:
  assumes "0 < n"
  shows "sorted (map snd es) \<Longrightarrow> js_le lo (speechProgress s) \<Longrightarrow> js_le (speechProgress s) (Fin 100) \<Longrightarrow>
     \<forall>e\<in>set es. js_le (speechProgress s) (progress_percent (snd e) n) \<Longrightarrow>
     sorted_wrt js_le (speechProgress s # progress_trace n es s) \<and>
     js_le (speechProgress (run_boundaries n es s)) (Fin 100) \<and>
     (\<forall>v\<in>set (progress_trace n es s). js_le v (Fin 100))"
proof (induction es arbitrary: s lo)
  case Nil
  then show ?case by simp
next
  case (Cons e es)
  let ?s' = "onboundary n e s"
  have step: "js_le (speechProgress s) (speechProgress ?s')"
  proof (cases "fst e = str ''word''")
    case True
    then show ?thesis using Cons.prems(4) by (simp add: onboundary_progress)
  next
    case False
    then have "speechProgress ?s' = speechProgress s" by (simp add: onboundary_progress)
    moreover have "js_le (speechProgress s) (speechProgress s)"
      using Cons.prems(3) by (cases "speechProgress s") auto
    ultimately show ?thesis by simp
  qed
  have top: "js_le (speechProgress ?s') (Fin 100)"
    using Cons.prems(3) progress_percent_range [OF assms] by (simp add: onboundary_progress)
  have later: "\<forall>e'\<in>set es. js_le (speechProgress ?s') (progress_percent (snd e') n)"
  proof
    fix e' assume mem: "e' \<in> set es"
    show "js_le (speechProgress ?s') (progress_percent (snd e') n)"
    proof (cases "fst e = str ''word''")
      case True
      from Cons.prems(1) mem have "snd e \<le> snd e'" by auto
      then show ?thesis using True progress_percent_mono [OF assms] by (simp add: onboundary_progress)
    next
      case False
      then show ?thesis using Cons.prems(4) mem by (simp add: onboundary_progress)
    qed
  qed
  from Cons.prems(1) have sorted_es: "sorted (map snd es)" by simp
  have ih: "sorted_wrt js_le (speechProgress ?s' # progress_trace n es ?s') \<and>
     js_le (speechProgress (run_boundaries n es ?s')) (Fin 100) \<and>
     (\<forall>v\<in>set (progress_trace n es ?s'). js_le v (Fin 100))"
    by (rule Cons.IH [OF sorted_es step top later])
  have "\<forall>v\<in>set (progress_trace n es ?s'). js_le (speechProgress s) v"
    using ih step js_le_trans by auto
  then show ?case using ih step top by simp
qed

subsection \<open>The sample runs\<close>

lemmas run_defs =
  load_image_def analyse_image_def analyze_twice_def analyze_twice_one_render_def
  study_and_ask_def ask_and_type_def ask_twice_def read_and_pause_def read_pause_resume_def stop_then_pause_def
  listen_after_analysis_def voice_after_chat_def typed_after_chat_def ask_and_listen_def
  ask_and_listen_new_handlers_def
  initial_world_def initial_state_def png_def startsWith_def fileToBase64_def at_index_def
  analyze_disabled_def send_disabled_def sends_def message_text_def trim_def js_whitespace_def
  ResultPanel_def slider_values_def up_to_date_def str_def

lemma run_study_and_ask: "run study_and_ask initial_world \<noteq> None"
  by (simp add: run_defs handler_defs)



lemma run_rendered_read_pause_resume: "run_rendered read_pause_resume initial_world \<noteq> None"
  by (simp add: run_defs handler_defs)

subsection \<open>Image intake\<close>

text \<open>
  C3. \<open>handleFileChange\<close> rejects exactly the invalid files and changes nothing but the
  error message when it rejects: a file whose type does not start with \<open>image/\<close> gets
  the unsupported-format message and is not read; a file whose type does gets the too-large
  message if and only if its size exceeds \<open>10 * 1024 * 1024\<close> bytes, and is handed to
  the reader exactly when it does not. The stored image and content are those of before.
\<close>

theorem handleFileChange_rejects:
  "(\<not> startsWith (f_type f) (str ''image/'') \<longrightarrow>
      handleFileChange (Some f) s = (s\<lparr>error := Some unsupported_format_msg\<rparr>, None)) \<and>
   (startsWith (f_type f) (str ''image/'') \<longrightarrow>
      (error (fst (handleFileChange (Some f) s)) = Some too_large_msg
         \<longleftrightarrow> f_size f > 10 * 1024 * 1024) \<and>
      (f_size f > 10 * 1024 * 1024 \<longrightarrow>
         handleFileChange (Some f) s = (s\<lparr>error := Some too_large_msg\<rparr>, None)) \<and>
      (f_size f \<le> 10 * 1024 * 1024 \<longrightarrow>
         handleFileChange (Some f) s = (s\<lparr>error := None\<rparr>, Some f))) \<and>
   image (fst (handleFileChange (Some f) s)) = image s \<and>
   content (fst (handleFileChange (Some f) s)) = content s"
  by (simp add: handleFileChange_def Let_def too_large_msg_def str_Nil_iff)

theorem handleFileChange_rejects_witness:
  "handleFileChange (Some (pdf 100)) studying_state =
     (studying_state\<lparr>error := Some unsupported_format_msg\<rparr>, None) \<and>
   handleFileChange (Some (png (10 * 1024 * 1024))) studying_state =
     (studying_state\<lparr>error := None\<rparr>, Some (png (10 * 1024 * 1024))) \<and>
   handleFileChange (Some (png (10 * 1024 * 1024 + 1))) studying_state =
     (studying_state\<lparr>error := Some too_large_msg\<rparr>, None)"
  using handleFileChange_rejects [of "pdf 100" studying_state]
    handleFileChange_rejects [of "png (10 * 1024 * 1024)" studying_state]
    handleFileChange_rejects [of "png (10 * 1024 * 1024 + 1)" studying_state]
  by (simp add: pdf_def png_def startsWith_def str_def)

subsection \<open>Analysis\<close>




text \<open>
  C4. When the analysis fails, \<open>handleAnalyze\<close> sets the error message and leaves the
  stored content and the chat log as they were, both in the part before the request and in
  the part after it; and whatever the outcome, \<open>loading\<close>, set when the request is issued,
  is false when the handler completes. \<open>analyzeImageContent\<close> fails when the SDK throws,
  when the response has no text, and when the text does not parse.
\<close>

theorem handleAnalyze_failure_atomic:
  "handleAnalyze_settled (Inl err) s = s\<lparr>error := Some analysis_failure_msg, loading := False\<rparr> \<and>
   content (handleAnalyze_settled (Inl err) (handleAnalyze r s)) = content s \<and>
   messages (handleAnalyze_settled (Inl err) (handleAnalyze r s)) = messages s \<and>
   error (handleAnalyze_settled (Inl err) (handleAnalyze r s)) = Some analysis_failure_msg \<and>
   (\<not> falsy (image r) \<longrightarrow> loading (handleAnalyze r s)) \<and>
   \<not> loading (handleAnalyze_settled res s) \<and>
   (gen img lang = SdkThrows \<or>
    (\<exists>t. gen img lang = SdkResponse t \<and> (falsy t \<or> parse (the t) = None)) \<longrightarrow>
      handleAnalyze_settled (analyzeImageContent gen parse img lang) s =
        s\<lparr>error := Some analysis_failure_msg, loading := False\<rparr>)"
proof -
  have handler: "handleAnalyze_settled (Inl err) s =
        s\<lparr>error := Some analysis_failure_msg, loading := False\<rparr> \<and>
      content (handleAnalyze_settled (Inl err) (handleAnalyze r s)) = content s \<and>
      messages (handleAnalyze_settled (Inl err) (handleAnalyze r s)) = messages s \<and>
      error (handleAnalyze_settled (Inl err) (handleAnalyze r s)) = Some analysis_failure_msg \<and>
      (\<not> falsy (image r) \<longrightarrow> loading (handleAnalyze r s)) \<and>
      \<not> loading (handleAnalyze_settled res s)"
    by (simp add: handleAnalyze_settled_def handleAnalyze_def stopSpeaking_def Let_def
        split: sum.splits)
  have raised: "gen img lang = SdkThrows \<or>
      (\<exists>t. gen img lang = SdkResponse t \<and> (falsy t \<or> parse (the t) = None)) \<longrightarrow>
      handleAnalyze_settled (analyzeImageContent gen parse img lang) s =
        s\<lparr>error := Some analysis_failure_msg, loading := False\<rparr>"
  proof
    assume "gen img lang = SdkThrows \<or>
      (\<exists>t. gen img lang = SdkResponse t \<and> (falsy t \<or> parse (the t) = None))"
    then have "\<exists>e. analyzeImageContent gen parse img lang = Inl e"
      by (auto simp: analyzeImageContent_def)
    then obtain e where "analyzeImageContent gen parse img lang = Inl e" ..
    then show "handleAnalyze_settled (analyzeImageContent gen parse img lang) s =
        s\<lparr>error := Some analysis_failure_msg, loading := False\<rparr>"
      by (simp add: handleAnalyze_settled_def)
  qed
  show ?thesis using handler raised by blast
qed

theorem handleAnalyze_failure_atomic_witness:
  "handleAnalyze_settled (analyzeImageContent (\<lambda>i l. SdkThrows) (\<lambda>x. None) (str ''QUJD'') ENGLISH)
     (handleAnalyze ready_state ready_state) =
     (handleAnalyze ready_state ready_state)
       \<lparr>error := Some analysis_failure_msg, loading := False\<rparr> \<and>
   loading (handleAnalyze ready_state ready_state) \<and>
   \<not> loading (handleAnalyze_settled (Inl SdkError) (handleAnalyze ready_state ready_state)) \<and>
   \<not> loading (handleAnalyze_settled (Inr sample_content) (handleAnalyze ready_state ready_state))"
  using handleAnalyze_failure_atomic [of SdkError ready_state ready_state "Inl SdkError"
      "\<lambda>i l. SdkThrows" "str ''QUJD''" ENGLISH "\<lambda>x. None"]
    handleAnalyze_failure_atomic [of SdkError "handleAnalyze ready_state ready_state" ready_state
      "Inl SdkError" "\<lambda>i l. SdkThrows" "str ''QUJD''" ENGLISH "\<lambda>x. None"]
    handleAnalyze_failure_atomic [of SdkError "handleAnalyze ready_state ready_state" ready_state
      "Inr sample_content" "\<lambda>i l. SdkThrows" "str ''QUJD''" ENGLISH "\<lambda>x. None"]
  by (simp add: ready_state_def initial_state_def str_Nil_iff)

subsection \<open>Narration\<close>




text \<open>
  C7. \<open>speakContent\<close> runs \<open>stopSpeaking\<close> first: the synthesiser's queue is
  cancelled, the speaking flag cleared, the progress reset to 0 and the reference dropped;
  only then the new utterance is created and spoken. Afterwards the queue holds the new
  utterance alone, whatever it held before, and the new session's progress starts at 0.
  Since \<open>speak\<close> is called nowhere else, the queue never holds more than one utterance
  in a reachable world.
\<close>

theorem speakContent_linearized:
  "speakContent r txt forceLang s = speakContent_begin r txt forceLang (stopSpeaking s) \<and>
   synthCalls (stopSpeaking s) = synthCalls s @ [Cancel] \<and>
   synth_queue (synthCalls (stopSpeaking s)) = [] \<and>
   \<not> isSpeaking (stopSpeaking s) \<and>
   speechProgress (stopSpeaking s) = Fin 0 \<and>
   currentUtteranceRef (stopSpeaking s) = None \<and>
   synthCalls (speakContent r txt forceLang s) =
     synthCalls s @ [Cancel, Speak (length (utterances s))] \<and>
   synth_queue (synthCalls (speakContent r txt forceLang s)) = [length (utterances s)] \<and>
   currentUtteranceRef (speakContent r txt forceLang s) = Some (length (utterances s)) \<and>
   isSpeaking (speakContent r txt forceLang s) \<and>
   \<not> isPaused (speakContent r txt forceLang s) \<and>
   speechProgress (speakContent r txt forceLang s) = Fin 0 \<and>
   (reachable w \<longrightarrow> length (synth_queue (synthCalls (app w))) \<le> 1)"
proof -
  have start: "speakContent r txt forceLang s = speakContent_begin r txt forceLang (stopSpeaking s)"
    by (simp add: speakContent_def)
  have stop: "synthCalls (stopSpeaking s) = synthCalls s @ [Cancel] \<and>
      synth_queue (synthCalls (stopSpeaking s)) = [] \<and>
      \<not> isSpeaking (stopSpeaking s) \<and>
      speechProgress (stopSpeaking s) = Fin 0 \<and>
      currentUtteranceRef (stopSpeaking s) = None"
    by (simp add: stopSpeaking_def synth_queue_append)
  have begun: "synthCalls (speakContent r txt forceLang s) =
        synthCalls s @ [Cancel, Speak (length (utterances s))] \<and>
      synth_queue (synthCalls (speakContent r txt forceLang s)) = [length (utterances s)] \<and>
      currentUtteranceRef (speakContent r txt forceLang s) = Some (length (utterances s)) \<and>
      isSpeaking (speakContent r txt forceLang s) \<and>
      \<not> isPaused (speakContent r txt forceLang s) \<and>
      speechProgress (speakContent r txt forceLang s) = Fin 0"
    by (simp add: speakContent_def speakContent_begin_def stopSpeaking_def Let_def
        synth_queue_append)
  have inv: "reachable w \<longrightarrow> length (synth_queue (synthCalls (app w))) \<le> 1"
    using reachable_queue_bounded [of w] by (simp add: queue_bounded_def)
  show ?thesis using start stop begun inv by blast
qed

theorem speakContent_linearized_witness:
  "synthCalls (app (the (run study_and_ask initial_world))) =
     [Cancel, Cancel, Speak 0, Cancel, Speak 1] \<and>
   synth_queue (synthCalls (app (the (run study_and_ask initial_world)))) = [1] \<and>
   length (synth_queue (synthCalls (app (the (run study_and_ask initial_world))))) \<le> 1"
proof -
  obtain w where w: "run study_and_ask initial_world = Some w"
    using run_study_and_ask by auto
  have "reachable w" using reachable.initial w by (rule reachable_run)
  then have "length (synth_queue (synthCalls (app w))) \<le> 1"
    using speakContent_linearized [of initial_state "[]" None initial_state w] by blast
  moreover have "synthCalls (app (the (run study_and_ask initial_world))) =
      [Cancel, Cancel, Speak 0, Cancel, Speak 1]"
    by (simp add: run_defs handler_defs)
  ultimately show ?thesis using w by (simp add: synth_queue_def)
qed

text \<open>
  C8, as stated, fails for the handlers: \<open>onboundary\<close> sets the progress from the
  event's \<open>charIndex\<close> alone and never compares it with the value before, so boundary
  events delivered out of speaking order lower the progress.
\<close>

theorem onboundary_order_counterexample:
  "progress_trace (length (str ''Hello world'')) [(str ''word'', 6), (str ''word'', 0)]
     (speakContent initial_state (str ''Hello world'') None initial_state) =
     [Fin (7676590273926981 / 140737488355328), Fin 0] \<and>
   \<not> js_le (Fin (7676590273926981 / 140737488355328)) (Fin 0)"
  by (simp add: onboundary_def length_hello_world progress_percent_6_11 progress_percent_0_11)

text \<open>
  C8, amended. The texts the program narrates are never empty (the read-aloud template,
  an answer of the responder). A word boundary at \<open>charIndex\<close> sets the progress to
  \<open>Math.min((charIndex / length) * 100, 100)\<close> in double arithmetic: for a text that is
  not empty a value between 0 and 100, which is 0 at offset 0, 100 from the offset
  \<open>length\<close> on, and no smaller at a later offset than at an earlier one. Over a session
  whose boundary events arrive in speaking order (character offsets non-decreasing), the
  reported values, from the 0 at the start to the 100 set by \<open>onend\<close>, never decrease.
  \<open>onend\<close> sets the progress to exactly 100.
\<close>

theorem narration_progress:
  "textToRead c \<noteq> [] \<and>
   (\<exists>a. askFollowUpQuestion gen ctx hist lang = Inr a \<and> a \<noteq> []) \<and>
   speechProgress (onboundary n (str ''word'', i) s') =
     Math_min (js_mul (js_div i n) 100) (Fin 100) \<and>
   (txt \<noteq> [] \<longrightarrow>
      js_le (Fin 0) (progress_percent i (length txt)) \<and>
      js_le (progress_percent i (length txt)) (Fin 100) \<and>
      progress_percent 0 (length txt) = Fin 0 \<and>
      (length txt \<le> i \<longrightarrow> progress_percent i (length txt) = Fin 100) \<and>
      (i \<le> j \<longrightarrow> js_le (progress_percent i (length txt)) (progress_percent j (length txt)))) \<and>
   (txt \<noteq> [] \<and> sorted (map snd events) \<longrightarrow>
      sorted_wrt js_le
        (session_progress (length txt) events (speakContent r txt forceLang s)) \<and>
      (\<forall>v\<in>set (session_progress (length txt) events (speakContent r txt forceLang s)).
          js_le (Fin 0) v \<and> js_le v (Fin 100))) \<and>
   hd (session_progress (length txt) events (speakContent r txt forceLang s)) = Fin 0 \<and>
   last (session_progress (length txt) events (speakContent r txt forceLang s)) = Fin 100 \<and>
   speechProgress (onend s') = Fin 100"
proof -
  let ?n = "length txt"
  let ?s0 = "speakContent r txt forceLang s"
  have start: "speechProgress ?s0 = Fin 0"
    by (simp add: speakContent_def speakContent_begin_def stopSpeaking_def Let_def)
  have template: "textToRead c \<noteq> []"
    by (simp add: textToRead_def nl_def)
  have answer: "\<exists>a. askFollowUpQuestion gen ctx hist lang = Inr a \<and> a \<noteq> []"
  proof (cases "gen ctx lang (to_contents hist)")
    case SdkThrows
    then show ?thesis
      by (simp add: askFollowUpQuestion_def askFollowUpQuestion_try_def connection_fallback_def
          str_Nil_iff)
  next
    case (SdkResponse t)
    then show ?thesis
      by (cases t)
        (simp_all add: askFollowUpQuestion_def askFollowUpQuestion_try_def no_answer_fallback_def
          str_Nil_iff)
  qed
  have formula: "speechProgress (onboundary n (str ''word'', i) s') =
      Math_min (js_mul (js_div i n) 100) (Fin 100)"
    by (simp add: onboundary_def progress_percent_def)
  have one: "txt \<noteq> [] \<longrightarrow>
      js_le (Fin 0) (progress_percent i ?n) \<and>
      js_le (progress_percent i ?n) (Fin 100) \<and>
      progress_percent 0 ?n = Fin 0 \<and>
      (?n \<le> i \<longrightarrow> progress_percent i ?n = Fin 100) \<and>
      (i \<le> j \<longrightarrow> js_le (progress_percent i ?n) (progress_percent j ?n))"
    using progress_percent_range [of ?n i] progress_percent_start [of ?n]
      progress_percent_full [of ?n i] progress_percent_mono [of ?n i j]
    by simp
  have run: "sorted_wrt js_le (session_progress ?n events ?s0) \<and>
      (\<forall>v\<in>set (session_progress ?n events ?s0). js_le (Fin 0) v \<and> js_le v (Fin 100))"
    if ne: "txt \<noteq> []" and srt: "sorted (map snd events)"
  proof -
    from ne have pos: "0 < ?n" by simp
    have low: "\<forall>e\<in>set events. js_le (speechProgress ?s0) (progress_percent (snd e) ?n)"
      using progress_percent_range [OF pos] by (simp add: start)
    have b: "sorted_wrt js_le (speechProgress ?s0 # progress_trace ?n events ?s0) \<and>
       js_le (speechProgress (run_boundaries ?n events ?s0)) (Fin 100) \<and>
       (\<forall>v\<in>set (progress_trace ?n events ?s0). js_le v (Fin 100))"
      by (rule progress_trace_bounds [OF pos srt _ _ low, of "Fin 0"]) (simp_all add: start)
    then have above: "\<forall>v\<in>set (progress_trace ?n events ?s0). js_le (Fin 0) v"
      by (simp add: start)
    have "sorted_wrt js_le (session_progress ?n events ?s0)"
      using b by (simp add: session_progress_def sorted_wrt_append onend_def start)
    moreover have "\<forall>v\<in>set (session_progress ?n events ?s0). js_le (Fin 0) v \<and> js_le v (Fin 100)"
      using b above by (auto simp: session_progress_def onend_def start)
    ultimately show ?thesis by blast
  qed
  have ends: "hd (session_progress ?n events ?s0) = Fin 0 \<and>
      last (session_progress ?n events ?s0) = Fin 100 \<and> speechProgress (onend s') = Fin 100"
    by (simp add: session_progress_def onend_def start)
  show ?thesis using template answer formula one run ends by blast
qed

theorem narration_progress_witness:
  "session_progress (length (str ''Hello world'')) [(str ''word'', 0), (str ''word'', 6)]
     (speakContent initial_state (str ''Hello world'') (Some (str ''en-US'')) initial_state) =
     [Fin 0, Fin 0, Fin (7676590273926981 / 140737488355328), Fin 100] \<and>
   sorted_wrt js_le [Fin 0, Fin 0, Fin (7676590273926981 / 140737488355328), Fin 100] \<and>
   js_le (progress_percent 6 (length (str ''Hello world'')))
     (progress_percent 11 (length (str ''Hello world''))) \<and>
   progress_percent 11 (length (str ''Hello world'')) = Fin 100 \<and>
   speechProgress (onboundary (length (str ''Plants make food from sun'')) (str ''word'', 7)
     initial_state) = Fin (7881299347898369 / 281474976710656) \<and>
   speechProgress (onboundary 27 (str ''word'', 8) initial_state) =
     Fin (4169999654972681 / 140737488355328) \<and>
   speechProgress (onboundary 23 (str ''word'', 7) initial_state) =
     Fin (1070828715747061 / 35184372088832)"
proof -
  let ?txt = "str ''Hello world''"
  let ?events = "[(str ''word'', 0::nat), (str ''word'', 6)]"
  let ?s0 = "speakContent initial_state ?txt (Some (str ''en-US'')) initial_state"
  note hello = narration_progress [of sample_content "\<lambda>c l h. SdkThrows" "[]" "[]" ENGLISH
      "length (str ''Plants make food from sun'')" 7 initial_state ?txt 11 ?events initial_state
      "Some (str ''en-US'')" initial_state]
  note whole = narration_progress [of sample_content "\<lambda>c l h. SdkThrows" "[]" "[]" ENGLISH
      11 11 initial_state ?txt 11 ?events initial_state "Some (str ''en-US'')" initial_state]
  note six = narration_progress [of sample_content "\<lambda>c l h. SdkThrows" "[]" "[]" ENGLISH
      11 6 initial_state ?txt 11 ?events initial_state "Some (str ''en-US'')" initial_state]
  have ne: "?txt \<noteq> []" by (simp add: str_Nil_iff)
  have srt: "sorted (map snd ?events)" by simp
  have le: "(6::nat) \<le> 11" by simp
  have len: "length ?txt \<le> 11" by (simp add: length_hello_world)
  have val: "session_progress (length ?txt) ?events ?s0 =
      [Fin 0, Fin 0, Fin (7676590273926981 / 140737488355328), Fin 100]"
    by (simp add: session_progress_def onboundary_def onend_def length_hello_world
        progress_percent_0_11 progress_percent_6_11 speakContent_def speakContent_begin_def
        stopSpeaking_def Let_def)
  from six ne srt have "sorted_wrt js_le (session_progress (length ?txt) ?events ?s0)" by blast
  then have ordered: "sorted_wrt js_le [Fin 0, Fin 0, Fin (7676590273926981 / 140737488355328), Fin 100]"
    unfolding val .
  from six ne le have later: "js_le (progress_percent 6 (length ?txt)) (progress_percent 11 (length ?txt))"
    by blast
  from whole ne len have full: "progress_percent 11 (length ?txt) = Fin 100" by blast
  from hello have "speechProgress (onboundary (length (str ''Plants make food from sun''))
      (str ''word'', 7) initial_state) =
      Math_min (js_mul (js_div 7 (length (str ''Plants make food from sun''))) 100) (Fin 100)"
    by blast
  then have sun: "speechProgress (onboundary (length (str ''Plants make food from sun''))
      (str ''word'', 7) initial_state) = Fin (7881299347898369 / 281474976710656)"
    using progress_percent_7_25 by (simp add: length_plants progress_percent_def)
  from narration_progress [of sample_content "\<lambda>c l h. SdkThrows" "[]" "[]" ENGLISH
      27 8 initial_state ?txt 11 ?events initial_state "Some (str ''en-US'')" initial_state]
  have even: "speechProgress (onboundary 27 (str ''word'', 8) initial_state) =
      Fin (4169999654972681 / 140737488355328)"
    using progress_percent_8_27 by (simp add: progress_percent_def)
  from narration_progress [of sample_content "\<lambda>c l h. SdkThrows" "[]" "[]" ENGLISH
      23 7 initial_state ?txt 11 ?events initial_state "Some (str ''en-US'')" initial_state]
  have odd: "speechProgress (onboundary 23 (str ''word'', 7) initial_state) =
      Fin (1070828715747061 / 35184372088832)"
    using progress_percent_7_23 by (simp add: progress_percent_def)
  show ?thesis using val ordered later full sun even odd by blast
qed

text \<open>
  C9, as stated, fails: \<open>setVolume\<close> stores the value it is given, and no clamping
  takes place anywhere; given 2 it stores 2.
\<close>

theorem setVolume_unclamped_counterexample:
  "speechVolume (setVolume (Fin 2) initial_state) = Fin 2 \<and> \<not> js_le (Fin 2) (Fin 1)"
  by (simp add: setVolume_def volume_effect_def initial_state_def)

text \<open>
  C9, amended. \<open>setVolume\<close> stores its argument as it is. When the stored value
  changes, the referenced utterance, if there is one, gets the new volume, and a narration
  started from the current render uses the stored value. The slider, the only caller of
  \<open>setVolume\<close>, produces the notches 0, 0.1, ..., 1 alone, so the stored volume lies
  within [0,1] in every reachable world.
\<close>

theorem setVolume_stores:
  "speechVolume (setVolume v s) = v \<and>
   (\<forall>uid. currentUtteranceRef s = Some uid \<and> uid < length (utterances s) \<and>
       v \<noteq> speechVolume s \<longrightarrow>
       u_volume (utterances (setVolume v s) ! uid) = v) \<and>
   u_volume (utterances (speakContent (setVolume v s) txt forceLang (setVolume v s))
      ! length (utterances (setVolume v s))) = v \<and>
   (\<forall>x\<in>set slider_values. js_le (Fin 0) x \<and> js_le x (Fin 1)) \<and>
   (reachable w \<longrightarrow>
      js_le (Fin 0) (speechVolume (app w)) \<and> js_le (speechVolume (app w)) (Fin 1))"
proof -
  have stored: "speechVolume (setVolume v s) = v"
    by (simp add: setVolume_def volume_effect_def split: option.splits)
  have inflight: "\<forall>uid. currentUtteranceRef s = Some uid \<and> uid < length (utterances s) \<and>
       v \<noteq> speechVolume s \<longrightarrow> u_volume (utterances (setVolume v s) ! uid) = v"
    by (simp add: setVolume_def volume_effect_def)
  have later: "u_volume (utterances (speakContent (setVolume v s) txt forceLang (setVolume v s))
      ! length (utterances (setVolume v s))) = v"
    using stored
    by (simp add: speakContent_def speakContent_begin_def stopSpeaking_def new_utterance_def Let_def)
  have notches: "\<forall>x\<in>set slider_values. js_le (Fin 0) x \<and> js_le x (Fin 1)"
    using slider_values_range by blast
  have inv: "reachable w \<longrightarrow>
      js_le (Fin 0) (speechVolume (app w)) \<and> js_le (speechVolume (app w)) (Fin 1)"
    using reachable_volume_in_range [of w] by (simp add: volume_in_range_def)
  show ?thesis using stored inflight later notches inv by blast
qed

theorem setVolume_stores_witness:
  "speechVolume (app (the (run study_and_ask initial_world))) = Fin (3 / 10) \<and>
   js_le (Fin 0) (Fin (3 / 10)) \<and> js_le (Fin (3 / 10)) (Fin 1) \<and>
   map u_volume (utterances (app (the (run study_and_ask initial_world)))) =
     [Fin (3 / 10), Fin (3 / 10)]"
proof -
  obtain w where w: "run study_and_ask initial_world = Some w"
    using run_study_and_ask by auto
  have "reachable w" using reachable.initial w by (rule reachable_run)
  then have "js_le (Fin 0) (speechVolume (app w)) \<and> js_le (speechVolume (app w)) (Fin 1)"
    using setVolume_stores [of "Fin 0" initial_state "[]" None w] by blast
  moreover have "speechVolume (app (the (run study_and_ask initial_world))) = Fin (3 / 10)"
    by (simp add: run_defs handler_defs)
  moreover have "map u_volume (utterances (app (the (run study_and_ask initial_world)))) =
      [Fin (3 / 10), Fin (3 / 10)]"
    by (simp add: run_defs handler_defs new_utterance_def)
  ultimately show ?thesis using w by simp
qed

subsection \<open>Chat\<close>

text \<open>
  What \<open>handleSendMessage\<close> does, in terms of the render \<open>r\<close> it belongs to and the
  state \<open>s\<close> it runs in: the test, the text, the content and the history are the
  closure's, while the new turn is appended to the log of the state.
\<close>

lemma handleSendMessage_closure:
  "handleSendMessage r t s =
     (if trim (message_text r t) = [] \<or> content r = None then s
      else s\<lparr>messages := messages s @ [\<lparr>msg_role = user, msg_text = message_text r t\<rparr>],
             chatInput := [], chatLoading := True,
             responderCalls := responderCalls s @
               [(build_context (the (content r)),
                 messages r @ [\<lparr>msg_role = user, msg_text = message_text r t\<rparr>], language r)]\<rparr>)"
  by (simp add: handleSendMessage_def Let_def send_request_def optimistic_update_def userMsg_def)

lemma handleSendMessage_blank:
  "(\<forall>c\<in>set (message_text r t). js_whitespace c) \<or> content r = None \<Longrightarrow>
     handleSendMessage r t s = s"
  by (simp add: handleSendMessage_def Let_def trim_blank_iff)

lemma handleSendMessage_settled_answer:
  "handleSendMessage_settled r (Inr answer) s =
     speakContent r answer None
       (s\<lparr>messages := messages s @ [\<lparr>msg_role = assistant, msg_text = answer\<rparr>],
          chatLoading := False\<rparr>)"
  by (simp add: handleSendMessage_settled_def aiMsg_def)

lemma recognition_onresult_without_content:
  "content r = None \<Longrightarrow> recognition_onresult r transcript s = s\<lparr>chatInput := transcript\<rparr>"
  by (simp add: recognition_onresult_def handleSendMessage_def Let_def)

text \<open>
  C5 describes what the program means to do with a question, and for a spoken question
  the program does not do it. The recognition handlers are installed by an effect that
  depends on the language alone, so \<open>onresult\<close>, commented \<open>Auto send on voice\<close>,
  calls the \<open>handleSendMessage\<close> of the render in which that effect last ran. With the
  handlers of the first render, a question spoken after an analysis is not sent: a record
  is stored and the text is not blank, yet the input is filled and nothing else happens,
  where the handler of the render on the page would have appended the turn.
  With the handlers of a render that followed a change of language, a question spoken
  after a chat is appended to the log of three turns and sent with a history of one,
  where the same question typed and sent with the Enter key carries all three.
\<close>

theorem voice_send_stale_closure:
  "content (app (the (run listen_after_analysis initial_world))) = Some sample_content \<and>
   trim (str ''Why?'') = str ''Why?'' \<and>
   fire (RecognitionResult (str ''Why?'')) (the (run listen_after_analysis initial_world)) =
     Some ((the (run listen_after_analysis initial_world))
       \<lparr>app := (app (the (run listen_after_analysis initial_world)))\<lparr>chatInput := str ''Why?''\<rparr>\<rparr>) \<and>
   messages (app (the (run listen_after_analysis initial_world))) = [] \<and>
   responderCalls (app (the (run listen_after_analysis initial_world))) = [] \<and>
   messages (recognition_onresult (committed (the (run listen_after_analysis initial_world)))
       (str ''Why?'') (app (the (run listen_after_analysis initial_world)))) =
     [\<lparr>msg_role = user, msg_text = str ''Why?''\<rparr>] \<and>
   messages (app (the (run voice_after_chat initial_world))) =
     [\<lparr>msg_role = user, msg_text = str ''Why?''\<rparr>,
      \<lparr>msg_role = assistant, msg_text = str ''Because.''\<rparr>,
      \<lparr>msg_role = user, msg_text = str ''Really?''\<rparr>] \<and>
   last (responderCalls (app (the (run voice_after_chat initial_world)))) =
     (build_context sample_content, [\<lparr>msg_role = user, msg_text = str ''Really?''\<rparr>], HINDI) \<and>
   messages (app (the (run typed_after_chat initial_world))) =
     [\<lparr>msg_role = user, msg_text = str ''Why?''\<rparr>,
      \<lparr>msg_role = assistant, msg_text = str ''Because.''\<rparr>,
      \<lparr>msg_role = user, msg_text = str ''Really?''\<rparr>] \<and>
   last (responderCalls (app (the (run typed_after_chat initial_world)))) =
     (build_context sample_content,
      [\<lparr>msg_role = user, msg_text = str ''Why?''\<rparr>,
       \<lparr>msg_role = assistant, msg_text = str ''Because.''\<rparr>,
       \<lparr>msg_role = user, msg_text = str ''Really?''\<rparr>], HINDI)"
proof -
  have stored: "content (app (the (run listen_after_analysis initial_world))) = Some sample_content"
    by (simp add: run_defs handler_defs)
  have nonblank: "trim (str ''Why?'') = str ''Why?''"
    by (simp add: trim_def js_whitespace_def str_def)
  have dropped: "fire (RecognitionResult (str ''Why?'')) (the (run listen_after_analysis initial_world)) =
      Some ((the (run listen_after_analysis initial_world))
        \<lparr>app := (app (the (run listen_after_analysis initial_world)))\<lparr>chatInput := str ''Why?''\<rparr>\<rparr>)"
    by (simp add: run_defs handler_defs)
  have before: "messages (app (the (run listen_after_analysis initial_world))) = [] \<and>
      responderCalls (app (the (run listen_after_analysis initial_world))) = []"
    by (simp add: run_defs handler_defs)
  have current: "messages (recognition_onresult (committed (the (run listen_after_analysis initial_world)))
        (str ''Why?'') (app (the (run listen_after_analysis initial_world)))) =
      [\<lparr>msg_role = user, msg_text = str ''Why?''\<rparr>]"
    by (simp add: run_defs handler_defs userMsg_def)
  have spoken_log: "messages (app (the (run voice_after_chat initial_world))) =
      [\<lparr>msg_role = user, msg_text = str ''Why?''\<rparr>,
       \<lparr>msg_role = assistant, msg_text = str ''Because.''\<rparr>,
       \<lparr>msg_role = user, msg_text = str ''Really?''\<rparr>]"
    by (simp add: run_defs handler_defs userMsg_def aiMsg_def)
  have spoken_history: "last (responderCalls (app (the (run voice_after_chat initial_world)))) =
      (build_context sample_content, [\<lparr>msg_role = user, msg_text = str ''Really?''\<rparr>], HINDI)"
    by (simp add: run_defs handler_defs userMsg_def aiMsg_def)
  have typed_log: "messages (app (the (run typed_after_chat initial_world))) =
      [\<lparr>msg_role = user, msg_text = str ''Why?''\<rparr>,
       \<lparr>msg_role = assistant, msg_text = str ''Because.''\<rparr>,
       \<lparr>msg_role = user, msg_text = str ''Really?''\<rparr>]"
    by (simp add: run_defs handler_defs userMsg_def aiMsg_def)
  have typed_history: "last (responderCalls (app (the (run typed_after_chat initial_world)))) =
      (build_context sample_content,
       [\<lparr>msg_role = user, msg_text = str ''Why?''\<rparr>,
        \<lparr>msg_role = assistant, msg_text = str ''Because.''\<rparr>,
        \<lparr>msg_role = user, msg_text = str ''Really?''\<rparr>], HINDI)"
    by (simp add: run_defs handler_defs userMsg_def aiMsg_def)
  show ?thesis
    using stored nonblank dropped before current spoken_log spoken_history typed_log typed_history by blast
qed

text \<open>
  C6. \<open>askFollowUpQuestion\<close> never raises to its caller: for every context, history and
  language and every behaviour of the SDK it returns a string. When the request fails the
  string is the fixed connection fallback, when the response carries no text (undefined or
  empty) it is the fixed no-answer fallback, and otherwise it is the model's text.
\<close>

theorem askFollowUpQuestion_never_raises:
  "(\<exists>answer. askFollowUpQuestion gen ctx hist lang = Inr answer) \<and>
   (gen ctx lang (to_contents hist) = SdkThrows \<longrightarrow>
      askFollowUpQuestion gen ctx hist lang = Inr connection_fallback) \<and>
   (\<forall>t. gen ctx lang (to_contents hist) = SdkResponse t \<and> falsy t \<longrightarrow>
      askFollowUpQuestion gen ctx hist lang = Inr no_answer_fallback) \<and>
   (\<forall>t. gen ctx lang (to_contents hist) = SdkResponse (Some t) \<and> t \<noteq> [] \<longrightarrow>
      askFollowUpQuestion gen ctx hist lang = Inr t)"
  by (auto simp: askFollowUpQuestion_def askFollowUpQuestion_try_def split: sdk_result.splits)

theorem askFollowUpQuestion_never_raises_witness:
  "askFollowUpQuestion (\<lambda>c l h. SdkThrows) (str ''ctx'') [] ENGLISH = Inr connection_fallback \<and>
   askFollowUpQuestion (\<lambda>c l h. SdkResponse None) (str ''ctx'') [] ENGLISH = Inr no_answer_fallback \<and>
   askFollowUpQuestion (\<lambda>c l h. SdkResponse (Some (str ''Yes.''))) (str ''ctx'') [] ENGLISH =
     Inr (str ''Yes.'')"
  using askFollowUpQuestion_never_raises [of "\<lambda>c l h. SdkThrows" "str ''ctx''" "[]" ENGLISH]
    askFollowUpQuestion_never_raises [of "\<lambda>c l h. SdkResponse None" "str ''ctx''" "[]" ENGLISH]
    askFollowUpQuestion_never_raises [of "\<lambda>c l h. SdkResponse (Some (str ''Yes.''))" "str ''ctx''"
      "[]" ENGLISH]
  by (simp add: str_Nil_iff)

text \<open>
  C10 describes a handler without a guard against a request in flight, and so the handler
  is: \<open>handleSendMessage\<close> does not look at \<open>chatLoading\<close>, and a second question sent
  with the Enter key while the first is unanswered is appended and requested, two requests
  being awaited at once; the send button of that render is disabled. The spoken question
  that C10 names is treated so only by recognition handlers of a render that had content.
  With the handlers of the first render, the defect shown under C5, a question spoken
  while \<open>chatLoading\<close> is set and a record is stored is ignored: it fills the input, and
  no turn is appended and no request issued.
\<close>

theorem voice_send_while_loading:
  "chatLoading (app (the (run ask_and_listen initial_world))) \<and>
   content (app (the (run ask_and_listen initial_world))) = Some sample_content \<and>
   trim (str ''Really?'') = str ''Really?'' \<and>
   fire (RecognitionResult (str ''Really?'')) (the (run ask_and_listen initial_world)) =
     Some ((the (run ask_and_listen initial_world))
       \<lparr>app := (app (the (run ask_and_listen initial_world)))\<lparr>chatInput := str ''Really?''\<rparr>\<rparr>) \<and>
   messages (app (the (run ask_and_listen initial_world))) =
     [\<lparr>msg_role = user, msg_text = str ''Why?''\<rparr>] \<and>
   length (responderCalls (app (the (run ask_and_listen initial_world)))) = 1 \<and>
   chatLoading (app (the (run ask_and_listen_new_handlers initial_world))) \<and>
   messages (app (the (run (ask_and_listen_new_handlers @ [RecognitionResult (str ''Really?'')])
       initial_world))) =
     [\<lparr>msg_role = user, msg_text = str ''Why?''\<rparr>, \<lparr>msg_role = user, msg_text = str ''Really?''\<rparr>] \<and>
   length (responderCalls (app (the (run
       (ask_and_listen_new_handlers @ [RecognitionResult (str ''Really?'')]) initial_world)))) = 2 \<and>
   length (chats_in_flight (the (run
       (ask_and_listen_new_handlers @ [RecognitionResult (str ''Really?'')]) initial_world))) = 2 \<and>
   send_disabled (committed (the (run ask_and_type initial_world))) \<and>
   fire ClickSend (the (run ask_and_type initial_world)) =
     Some (the (run ask_and_type initial_world)) \<and>
   messages (app (the (run ask_twice initial_world))) =
     [\<lparr>msg_role = user, msg_text = str ''Why?''\<rparr>, \<lparr>msg_role = user, msg_text = str ''And how?''\<rparr>] \<and>
   length (responderCalls (app (the (run ask_twice initial_world)))) = 2 \<and>
   length (chats_in_flight (the (run ask_twice initial_world))) = 2"
proof -
  have waiting: "chatLoading (app (the (run ask_and_listen initial_world))) \<and>
      content (app (the (run ask_and_listen initial_world))) = Some sample_content"
    by (simp add: run_defs handler_defs)
  have nonblank: "trim (str ''Really?'') = str ''Really?''"
    by (simp add: trim_def js_whitespace_def str_def)
  have ignored: "fire (RecognitionResult (str ''Really?'')) (the (run ask_and_listen initial_world)) =
      Some ((the (run ask_and_listen initial_world))
        \<lparr>app := (app (the (run ask_and_listen initial_world)))\<lparr>chatInput := str ''Really?''\<rparr>\<rparr>)"
    by (simp add: run_defs handler_defs)
  have before: "messages (app (the (run ask_and_listen initial_world))) =
        [\<lparr>msg_role = user, msg_text = str ''Why?''\<rparr>] \<and>
      length (responderCalls (app (the (run ask_and_listen initial_world)))) = 1"
    by (simp add: run_defs handler_defs userMsg_def)
  have waiting': "chatLoading (app (the (run ask_and_listen_new_handlers initial_world)))"
    by (simp add: run_defs handler_defs)
  have spoken: "messages (app (the (run (ask_and_listen_new_handlers @ [RecognitionResult (str ''Really?'')])
        initial_world))) =
      [\<lparr>msg_role = user, msg_text = str ''Why?''\<rparr>, \<lparr>msg_role = user, msg_text = str ''Really?''\<rparr>]"
    by (simp add: run_defs handler_defs userMsg_def)
  have spoken_calls: "length (responderCalls (app (the (run
        (ask_and_listen_new_handlers @ [RecognitionResult (str ''Really?'')]) initial_world)))) = 2"
    by (simp add: run_defs handler_defs)
  have spoken_awaited: "length (chats_in_flight (the (run
        (ask_and_listen_new_handlers @ [RecognitionResult (str ''Really?'')]) initial_world))) = 2"
    by (simp add: run_defs handler_defs)
  have button: "send_disabled (committed (the (run ask_and_type initial_world))) \<and>
      fire ClickSend (the (run ask_and_type initial_world)) =
        Some (the (run ask_and_type initial_world))"
    by (simp add: run_defs handler_defs)
  have typed: "messages (app (the (run ask_twice initial_world))) =
      [\<lparr>msg_role = user, msg_text = str ''Why?''\<rparr>, \<lparr>msg_role = user, msg_text = str ''And how?''\<rparr>]"
    by (simp add: run_defs handler_defs userMsg_def)
  have typed_calls: "length (responderCalls (app (the (run ask_twice initial_world)))) = 2 \<and>
      length (chats_in_flight (the (run ask_twice initial_world))) = 2"
    by (simp add: run_defs handler_defs)
  show ?thesis
    using waiting nonblank ignored before waiting' spoken spoken_calls spoken_awaited button typed
      typed_calls
    by blast
qed

subsection \<open>The volume of an answer's narration\<close>

text \<open>
  The narration of a chat answer takes its volume from the render in which the question
  was sent, not from the volume stored when the answer arrives.
\<close>

lemma answer_narration_volume:
  "u_volume (utterances (handleSendMessage_settled r (Inr answer) s) ! length (utterances s)) =
     speechVolume r"
  by (simp add: handleSendMessage_settled_def speakContent_def speakContent_begin_def
      stopSpeaking_def new_utterance_def Let_def)


end
